theory Spec2Isabelle
  imports Complex_Main "HOL-Library.Word" "HOL-Library.Log_Nat"
begin

section \<open>Window geometry of the main window (window/main_window.cpp)\<close>

text \<open>
  The development embeds the geometry code of \<^verbatim>\<open>Window::MainWindow\<close>:
  \<^verbatim>\<open>positionFromSettings\<close>, \<^verbatim>\<open>countInitialGeometry\<close> and \<^verbatim>\<open>savePosition\<close>.

  C++ \<^verbatim>\<open>int\<close> values are modelled as \<^typ>\<open>int\<close>. Signed overflow is undefined
  behaviour in C++; compiled for x86-64 a sum that leaves the range of 32 bits wraps
  around. The arithmetic on the saved position, which comes from the settings file as it
  is, is therefore given twice: with exact sums (\<open>fitPosition\<close>, \<open>countInitialGeometry\<close>),
  and with every sum wrapped to 32 bits (\<open>fitPosition32\<close>, \<open>countInitialGeometry32\<close>), the
  two agreeing while the values stay small (\<open>countInitialGeometry32_exact\<close>). The monitor
  checksum is an \<^verbatim>\<open>int32\<close> that is only stored and compared; it is a
  \<^typ>\<open>32 word\<close>.
\<close>

subsection \<open>Qt value types\<close>

text \<open>
  \<^verbatim>\<open>QRect(x, y, width, height)\<close>, \<^verbatim>\<open>QPoint(x, y)\<close> and
  \<^verbatim>\<open>QMargins(left, top, right, bottom)\<close>, with the accessors the file uses.
\<close>

datatype QRect = QRect (rect_x: int) (rect_y: int) (rect_width: int) (rect_height: int)

datatype QPoint = QPoint (point_x: int) (point_y: int)

datatype QMargins =
  QMargins (margins_left: int) (margins_top: int) (margins_right: int) (margins_bottom: int)

text \<open>Integer division of C++ truncates towards zero.\<close>

definition cpp_div :: "int \<Rightarrow> int \<Rightarrow> int" where
  "cpp_div a b = sgn a * sgn b * (\<bar>a\<bar> div \<bar>b\<bar>)"

text \<open>
  \<^verbatim>\<open>QRect::marginsRemoved\<close> moves the left and top edges inwards by the left and top
  margins and the right and bottom edges inwards by the right and bottom margins.
\<close>

definition marginsRemoved :: "QRect \<Rightarrow> QMargins \<Rightarrow> QRect" where
  "marginsRemoved r m =
     QRect (rect_x r + margins_left m) (rect_y r + margins_top m)
       (rect_width r - margins_left m - margins_right m)
       (rect_height r - margins_top m - margins_bottom m)"

text \<open>
  \<^verbatim>\<open>QRect::center\<close> is \<^verbatim>\<open>QPoint((x1 + x2) / 2, (y1 + y2) / 2)\<close> on the stored
  corners \<^verbatim>\<open>x2 = x1 + width - 1\<close>, \<^verbatim>\<open>y2 = y1 + height - 1\<close>.
\<close>

definition center :: "QRect \<Rightarrow> QPoint" where
  "center r =
     QPoint (cpp_div (rect_x r + (rect_x r + rect_width r - 1)) 2)
       (cpp_div (rect_y r + (rect_y r + rect_height r - 1)) 2)"

definition point_minus :: "QPoint \<Rightarrow> QPoint \<Rightarrow> QPoint" where
  "point_minus p q = QPoint (point_x p - point_x q) (point_y p - point_y q)"

definition manhattanLength :: "QPoint \<Rightarrow> int" where
  "manhattanLength p = \<bar>point_x p\<bar> + \<bar>point_y p\<bar>"

text \<open>A \<^verbatim>\<open>QScreen\<close>, with the three properties the file reads.\<close>

record QScreen =
  name :: string
  geometry :: QRect
  availableGeometry :: QRect

text \<open>\<^verbatim>\<open>Qt::WindowState\<close>.\<close>

datatype WindowState =
  WindowNoState | WindowMinimized | WindowMaximized | WindowFullScreen | WindowActive

subsection \<open>The saved window position\<close>

text \<open>
  \<^verbatim>\<open>Core::WindowPosition\<close>, with the seven fields the file reads and writes. The
  offsets \<open>x\<close>, \<open>y\<close> are relative to the owning monitor's top left corner.
\<close>

record WindowPosition =
  moncrc :: "32 word"
  maximized :: int
  scale :: int
  x :: int
  y :: int
  w :: int
  h :: int

subsection \<open>The window and its surroundings\<close>

text \<open>
  Everything the three member functions read besides their argument and the settings
  store: the screens reported by \<^verbatim>\<open>QGuiApplication\<close>, the constants of the style
  sheet (\<^verbatim>\<open>st::window...\<close>), the global interface scale \<^verbatim>\<open>cScale()\<close>, the checksum
  \<^verbatim>\<open>base::crc32\<close> (declared in base/crc32hash.h, taken as a parameter), and the state of
  the window itself.
\<close>

record MainWindow =
  primaryScreen :: "QScreen option"
  screens :: "QScreen list"
  crc32 :: "string \<Rightarrow> 32 word"
  thirdColumnByDefault :: bool
  windowDefaultWidth :: int
  windowDefaultHeight :: int
  windowBigDefaultWidth :: int
  windowBigDefaultHeight :: int
  windowMinWidth :: int
  windowMinHeight :: int
  cScale :: int
  nativeWindowFrame :: bool
  windowGeometry :: QRect
  frameGeometry :: QRect
  windowState :: WindowState
  isVisible :: bool
  positionInited :: bool
  bodyGlobalRect :: QRect
  rightColumn :: "int option"

text \<open>
  \<^verbatim>\<open>screenNameChecksum\<close>: the checksum of the UTF-8 bytes of a screen name.
\<close>

definition screenNameChecksum :: "MainWindow \<Rightarrow> string \<Rightarrow> 32 word" where
  "screenNameChecksum win nm = crc32 win nm"

subsection \<open>countInitialGeometry\<close>

text \<open>The fallback rectangle \<^verbatim>\<open>initial\<close> (lines 481 to 499).\<close>

definition initialGeometry :: "MainWindow \<Rightarrow> QRect" where
  "initialGeometry win =
     (let primaryAvailable =
            (case primaryScreen win of
               Some scr \<Rightarrow> availableGeometry scr
             | None \<Rightarrow> QRect 0 0 (windowDefaultWidth win) (windowDefaultHeight win));
          initialWidth =
            (if thirdColumnByDefault win then windowBigDefaultWidth win
             else windowDefaultWidth win);
          initialHeight =
            (if thirdColumnByDefault win then windowBigDefaultHeight win
             else windowDefaultHeight win)
      in QRect
           (rect_x primaryAvailable
              + max (cpp_div (rect_width primaryAvailable - initialWidth) 2) 0)
           (rect_y primaryAvailable
              + max (cpp_div (rect_height primaryAvailable - initialHeight) 2) 0)
           initialWidth initialHeight)"

text \<open>
  The screen lookup (lines 503 to 510): the first screen, in enumeration order, whose name
  checksum equals the saved one.
\<close>

definition findScreen :: "MainWindow \<Rightarrow> WindowPosition \<Rightarrow> QScreen option" where
  "findScreen win position =
     find (\<lambda>scr. moncrc position = screenNameChecksum win (name scr)) (screens win)"

text \<open>The window frame margins \<^verbatim>\<open>frame\<close> (lines 514 to 525).\<close>

definition frameMargins :: "MainWindow \<Rightarrow> QMargins" where
  "frameMargins win =
     (if \<not> nativeWindowFrame win then QMargins 0 0 0 0
      else
        (let inner = windowGeometry win; outer = frameGeometry win
         in QMargins
              (rect_x inner - rect_x outer)
              (rect_y inner - rect_y outer)
              (rect_x outer + rect_width outer - rect_x inner - rect_width inner)
              (rect_y outer + rect_height outer - rect_y inner - rect_height inner)))"

text \<open>
  The usable area in coordinates relative to the screen: the locals \<^verbatim>\<open>x\<close>, \<^verbatim>\<open>y\<close>,
  \<^verbatim>\<open>w\<close>, \<^verbatim>\<open>h\<close> of lines 527 to 541, collected in one rectangle.
\<close>

definition spaceForInner :: "MainWindow \<Rightarrow> QScreen \<Rightarrow> QRect" where
  "spaceForInner win scr = marginsRemoved (availableGeometry scr) (frameMargins win)"

definition usableArea :: "MainWindow \<Rightarrow> QScreen \<Rightarrow> QRect" where
  "usableArea win scr =
     (let screenGeometry = geometry scr; space = spaceForInner win scr
      in QRect (rect_x space - rect_x screenGeometry) (rect_y space - rect_y screenGeometry)
           (rect_width space) (rect_height space))"

text \<open>
  Lines 545 to 576: the saved position is moved and shrunk into the usable area
  \<open>QRect ux uy uw uh\<close>. Each assignment of the source is one \<open>let\<close>.
\<close>

definition fitPosition :: "QRect \<Rightarrow> WindowPosition \<Rightarrow> WindowPosition" where
  "fitPosition usable position0 =
     (let ux = rect_x usable; uy = rect_y usable;
          uw = rect_width usable; uh = rect_height usable;
          position1 = (if x position0 < ux then position0\<lparr>x := ux\<rparr> else position0);
          position2 = (if y position1 < uy then position1\<lparr>y := uy\<rparr> else position1);
          position3 = (if w position2 > uw then position2\<lparr>w := uw\<rparr> else position2);
          position4 = (if h position3 > uh then position3\<lparr>h := uh\<rparr> else position3);
          rightPoint = x position4 + w position4;
          screenRightPoint = ux + uw;
          position5 =
            (if rightPoint > screenRightPoint then
               (let distance = rightPoint - screenRightPoint;
                    newXPos = x position4 - distance
                in if newXPos \<ge> ux then position4\<lparr>x := newXPos\<rparr>
                   else
                     (let moved = position4\<lparr>x := ux\<rparr>;
                          newRightPoint = x moved + w moved;
                          newDistance = newRightPoint - screenRightPoint
                      in moved\<lparr>w := w moved - newDistance\<rparr>))
             else position4);
          bottomPoint = y position5 + h position5;
          screenBottomPoint = uy + uh
      in if bottomPoint > screenBottomPoint then
           (let distance = bottomPoint - screenBottomPoint;
                newYPos = y position5 - distance
            in if newYPos \<ge> uy then position5\<lparr>y := newYPos\<rparr>
               else
                 (let moved = position5\<lparr>y := uy\<rparr>;
                      newBottomPoint = y moved + h moved;
                      newDistance = newBottomPoint - screenBottomPoint
                  in moved\<lparr>h := h moved - newDistance\<rparr>))
         else position5)"

text \<open>
  Lines 545 to 578: the fitted position, translated to global desktop coordinates by the
  origin of the screen.
\<close>

definition globalPosition :: "MainWindow \<Rightarrow> QScreen \<Rightarrow> WindowPosition \<Rightarrow> WindowPosition" where
  "globalPosition win scr position =
     (let screenGeometry = geometry scr;
          fitted = fitPosition (usableArea win scr) position
      in fitted\<lparr>x := x fitted + rect_x screenGeometry, y := y fitted + rect_y screenGeometry\<rparr>)"

text \<open>
  The final test of lines 579 to 582: a window of the minimum size placed at the computed
  corner reaches past the right or the bottom edge of the screen.
\<close>

definition minSizeOverflows :: "MainWindow \<Rightarrow> QScreen \<Rightarrow> WindowPosition \<Rightarrow> bool" where
  "minSizeOverflows win scr position =
     (let screenGeometry = geometry scr
      in x position + windowMinWidth win > rect_x screenGeometry + rect_width screenGeometry
         \<or> y position + windowMinHeight win
              > rect_y screenGeometry + rect_height screenGeometry)"

definition countInitialGeometry :: "MainWindow \<Rightarrow> WindowPosition \<Rightarrow> QRect" where
  "countInitialGeometry win position =
     (let initial = initialGeometry win
      in if w position = 0 \<or> h position = 0 then initial
         else
           (case findScreen win position of
              None \<Rightarrow> initial
            | Some scr \<Rightarrow>
                (let usable = usableArea win scr
                 in if rect_width usable < windowMinWidth win
                       \<or> rect_height usable < windowMinHeight win
                    then initial
                    else
                      (let moved = globalPosition win scr position
                       in if minSizeOverflows win scr moved then initial
                          else QRect (x moved) (y moved) (w moved) (h moved)))))"

subsection \<open>countInitialGeometry with the sums of a 32 bit int\<close>

text \<open>
  The value an \<^verbatim>\<open>int\<close> holds after a sum or difference whose exact value is \<open>v\<close>: \<open>v\<close>
  itself when it is representable, and \<open>v\<close> wrapped around by a multiple of \<open>2\<^sup>3\<^sup>2\<close>
  otherwise.
\<close>

definition int32 :: "int \<Rightarrow> int" where
  "int32 v = (v + 2147483648) mod 4294967296 - 2147483648"


text \<open>Values so small that no sum of lines 545 to 582 leaves the range: below \<open>2\<^sup>2\<^sup>8\<close>.\<close>

definition small :: "int \<Rightarrow> bool" where
  "small v = (\<bar>v\<bar> < 268435456)"

text \<open>
  Lines 545 to 576 again, in three steps and with every sum and difference of the source
  wrapped: the four tests of lines 545 to 548, the right edge (lines 549 to 562) and the
  bottom edge (lines 563 to 576). The usable area is computed from values of the
  windowing system only and is taken from \<open>usableArea\<close>.
\<close>

definition clampPosition :: "QRect \<Rightarrow> WindowPosition \<Rightarrow> WindowPosition" where
  "clampPosition usable position0 =
     (let ux = rect_x usable; uy = rect_y usable;
          uw = rect_width usable; uh = rect_height usable;
          position1 = (if x position0 < ux then position0\<lparr>x := ux\<rparr> else position0);
          position2 = (if y position1 < uy then position1\<lparr>y := uy\<rparr> else position1);
          position3 = (if w position2 > uw then position2\<lparr>w := uw\<rparr> else position2)
      in if h position3 > uh then position3\<lparr>h := uh\<rparr> else position3)"

definition fitRight32 :: "QRect \<Rightarrow> WindowPosition \<Rightarrow> WindowPosition" where
  "fitRight32 usable position =
     (let ux = rect_x usable; uw = rect_width usable;
          rightPoint = int32 (x position + w position);
          screenRightPoint = int32 (ux + uw)
      in if rightPoint > screenRightPoint then
           (let distance = int32 (rightPoint - screenRightPoint);
                newXPos = int32 (x position - distance)
            in if newXPos \<ge> ux then position\<lparr>x := newXPos\<rparr>
               else
                 (let moved = position\<lparr>x := ux\<rparr>;
                      newRightPoint = int32 (x moved + w moved);
                      newDistance = int32 (newRightPoint - screenRightPoint)
                  in moved\<lparr>w := int32 (w moved - newDistance)\<rparr>))
         else position)"

definition fitBottom32 :: "QRect \<Rightarrow> WindowPosition \<Rightarrow> WindowPosition" where
  "fitBottom32 usable position =
     (let uy = rect_y usable; uh = rect_height usable;
          bottomPoint = int32 (y position + h position);
          screenBottomPoint = int32 (uy + uh)
      in if bottomPoint > screenBottomPoint then
           (let distance = int32 (bottomPoint - screenBottomPoint);
                newYPos = int32 (y position - distance)
            in if newYPos \<ge> uy then position\<lparr>y := newYPos\<rparr>
               else
                 (let moved = position\<lparr>y := uy\<rparr>;
                      newBottomPoint = int32 (y moved + h moved);
                      newDistance = int32 (newBottomPoint - screenBottomPoint)
                  in moved\<lparr>h := int32 (h moved - newDistance)\<rparr>))
         else position)"

definition fitPosition32 :: "QRect \<Rightarrow> WindowPosition \<Rightarrow> WindowPosition" where
  "fitPosition32 usable position =
     fitBottom32 usable (fitRight32 usable (clampPosition usable position))"

text \<open>
  The second and third step with exact sums: \<open>fitPosition\<close> is the three steps in a row
  (\<open>fitPosition_steps\<close>).
\<close>

definition fitRight :: "QRect \<Rightarrow> WindowPosition \<Rightarrow> WindowPosition" where
  "fitRight usable position =
     (let ux = rect_x usable; uw = rect_width usable;
          rightPoint = x position + w position;
          screenRightPoint = ux + uw
      in if rightPoint > screenRightPoint then
           (let distance = rightPoint - screenRightPoint;
                newXPos = x position - distance
            in if newXPos \<ge> ux then position\<lparr>x := newXPos\<rparr>
               else
                 (let moved = position\<lparr>x := ux\<rparr>;
                      newRightPoint = x moved + w moved;
                      newDistance = newRightPoint - screenRightPoint
                  in moved\<lparr>w := w moved - newDistance\<rparr>))
         else position)"

definition fitBottom :: "QRect \<Rightarrow> WindowPosition \<Rightarrow> WindowPosition" where
  "fitBottom usable position =
     (let uy = rect_y usable; uh = rect_height usable;
          bottomPoint = y position + h position;
          screenBottomPoint = uy + uh
      in if bottomPoint > screenBottomPoint then
           (let distance = bottomPoint - screenBottomPoint;
                newYPos = y position - distance
            in if newYPos \<ge> uy then position\<lparr>y := newYPos\<rparr>
               else
                 (let moved = position\<lparr>y := uy\<rparr>;
                      newBottomPoint = y moved + h moved;
                      newDistance = newBottomPoint - screenBottomPoint
                  in moved\<lparr>h := h moved - newDistance\<rparr>))
         else position)"

text \<open>Lines 577 and 578.\<close>

definition globalPosition32 :: "MainWindow \<Rightarrow> QScreen \<Rightarrow> WindowPosition \<Rightarrow> WindowPosition"
  where
  "globalPosition32 win scr position =
     (let screenGeometry = geometry scr;
          fitted = fitPosition32 (usableArea win scr) position
      in fitted\<lparr>x := int32 (x fitted + rect_x screenGeometry),
           y := int32 (y fitted + rect_y screenGeometry)\<rparr>)"

text \<open>Lines 579 to 582.\<close>

definition minSizeOverflows32 :: "MainWindow \<Rightarrow> QScreen \<Rightarrow> WindowPosition \<Rightarrow> bool" where
  "minSizeOverflows32 win scr position =
     (let screenGeometry = geometry scr
      in int32 (x position + windowMinWidth win)
           > int32 (rect_x screenGeometry + rect_width screenGeometry)
         \<or> int32 (y position + windowMinHeight win)
              > int32 (rect_y screenGeometry + rect_height screenGeometry))"

definition countInitialGeometry32 :: "MainWindow \<Rightarrow> WindowPosition \<Rightarrow> QRect" where
  "countInitialGeometry32 win position =
     (let initial = initialGeometry win
      in if w position = 0 \<or> h position = 0 then initial
         else
           (case findScreen win position of
              None \<Rightarrow> initial
            | Some scr \<Rightarrow>
                (let usable = usableArea win scr
                 in if rect_width usable < windowMinWidth win
                       \<or> rect_height usable < windowMinHeight win
                    then initial
                    else
                      (let moved = globalPosition32 win scr position
                       in if minSizeOverflows32 win scr moved then initial
                          else QRect (x moved) (y moved) (w moved) (h moved)))))"

subsection \<open>savePosition\<close>

text \<open>
  The settings store: the saved position, and the positions handed to
  \<^verbatim>\<open>setWindowPosition\<close> followed by \<^verbatim>\<open>saveSettingsDelayed\<close>, oldest first.
\<close>

record Settings =
  windowPosition :: WindowPosition
  written :: "WindowPosition list"

text \<open>
  Lines 680 to 682: the argument \<^verbatim>\<open>Qt::WindowActive\<close> stands for the state of the
  window handle.
\<close>

definition effectiveState :: "MainWindow \<Rightarrow> WindowState \<Rightarrow> WindowState" where
  "effectiveState win state = (if state = WindowActive then windowState win else state)"

text \<open>
  The loop of lines 710 to 719 over the screens, with the pair of \<^verbatim>\<open>minDelta\<close> and
  \<^verbatim>\<open>chosen\<close> as its state; \<^verbatim>\<open>nullptr\<close> is \<open>None\<close>.
\<close>

definition screenDelta :: "QPoint \<Rightarrow> QScreen \<Rightarrow> int" where
  "screenDelta c scr = manhattanLength (point_minus (center (geometry scr)) c)"

fun chooseScreen :: "QPoint \<Rightarrow> QScreen list \<Rightarrow> int \<times> QScreen option \<Rightarrow> int \<times> QScreen option"
  where
  "chooseScreen c [] acc = acc"
| "chooseScreen c (scr # rest) (minDelta, chosen) =
     (let delta = screenDelta c scr
      in if chosen = None \<or> delta < minDelta then chooseScreen c rest (delta, Some scr)
         else chooseScreen c rest (minDelta, chosen))"

text \<open>
  The rectangle of the window body in global coordinates, less the right column
  (lines 697 to 701).
\<close>

definition currentRect :: "MainWindow \<Rightarrow> QRect" where
  "currentRect win =
     (let r = bodyGlobalRect win
      in QRect (rect_x r) (rect_y r)
           (rect_width r - (case rightColumn win of Some cw \<Rightarrow> cw | None \<Rightarrow> 0))
           (rect_height r))"

text \<open>
  Lines 691 to 731: \<^verbatim>\<open>realPosition\<close>, computed from the saved position for the
  state left by lines 680 to 688.
\<close>

definition realPosition :: "MainWindow \<Rightarrow> WindowState \<Rightarrow> WindowPosition \<Rightarrow> WindowPosition" where
  "realPosition win state savedPosition =
     (if state = WindowMaximized then savedPosition\<lparr>maximized := 1\<rparr>
      else
        (let r = currentRect win;
             position = savedPosition\<lparr>x := rect_x r, y := rect_y r, w := rect_width r,
               h := rect_height r, scale := cScale win, maximized := 0, moncrc := 0\<rparr>;
             centerX = x position + cpp_div (w position) 2;
             centerY = y position + cpp_div (h position) 2
         in case snd (chooseScreen (QPoint centerX centerY) (screens win) (0, None)) of
              None \<Rightarrow> position
            | Some chosen \<Rightarrow>
                (let screenGeometry = geometry chosen
                 in position\<lparr>x := x position - rect_x screenGeometry,
                      y := y position - rect_y screenGeometry,
                      moncrc := screenNameChecksum win (name chosen)\<rparr>)))"

definition savePosition :: "MainWindow \<Rightarrow> WindowState \<Rightarrow> Settings \<Rightarrow> Settings" where
  "savePosition win state0 settings =
     (let state = effectiveState win state0
      in if state = WindowMinimized \<or> \<not> isVisible win \<or> \<not> positionInited win
         then settings
         else
           (let savedPosition = windowPosition settings;
                position = realPosition win state savedPosition
            in if w position \<ge> windowMinWidth win \<and> h position \<ge> windowMinHeight win
               then
                 if x position \<noteq> x savedPosition
                    \<or> y position \<noteq> y savedPosition
                    \<or> w position \<noteq> w savedPosition
                    \<or> h position \<noteq> h savedPosition
                    \<or> scale position \<noteq> scale savedPosition
                    \<or> moncrc position \<noteq> moncrc savedPosition
                    \<or> maximized position \<noteq> maximized savedPosition
                 then settings\<lparr>windowPosition := position,
                        written := written settings @ [position]\<rparr>
                 else settings
               else settings))"

subsection \<open>positionFromSettings\<close>

text \<open>
  \<^verbatim>\<open>float64\<close> is \<^verbatim>\<open>double\<close>. A finite double is a real number; the result of
  a division or a multiplication is the exact result rounded to the nearest number with a
  53 bit significand, ties to the even significand. Quotients and products of 32 bit
  integers lie within the exponent range of the normal doubles, so the exponent is not
  bounded here. That \<open>float64\<close> yields a number with a significand of 53 bits, at most
  half a unit in the last place from its argument, is \<open>float64_significand\<close> and
  \<open>float64_error\<close> below.
\<close>

definition pow2 :: "int \<Rightarrow> real" where
  "pow2 k = (if 0 \<le> k then 2 ^ nat k else 1 / 2 ^ nat (- k))"

text \<open>The exponent of a positive number: the \<open>e\<close> with \<open>2\<^sup>e \<le> q < 2\<^sup>e\<^sup>+\<^sup>1\<close>.\<close>

definition exponent :: "real \<Rightarrow> int" where
  "exponent q =
     (if 1 \<le> q then bitlen \<lfloor>q\<rfloor> - 1
      else
        (let k = bitlen \<lfloor>1 / q\<rfloor> - 1
         in if 1 / q = pow2 k then - k else - k - 1))"

definition round_half_even :: "real \<Rightarrow> int" where
  "round_half_even q =
     (let f = \<lfloor>q\<rfloor>; r = q - of_int f
      in if r < 1 / 2 then f
         else if 1 / 2 < r then f + 1
         else if even f then f else f + 1)"

definition float64 :: "real \<Rightarrow> real" where
  "float64 q =
     (if q = 0 then 0
      else
        (let ulp = pow2 (exponent \<bar>q\<bar> - 52)
         in of_int (round_half_even (q / ulp)) * ulp))"




subsection \<open>An example desktop\<close>

text \<open>
  Three screens side by side, the second with a panel of 40 pixels at the bottom, the
  third smaller than the minimum window size, and a window without native frame. The
  checksum of the example adds the bytes of the name.
\<close>

definition byteSum :: "string \<Rightarrow> 32 word" where
  "byteSum s = word_of_nat (sum_list (map of_char s))"

definition screenA :: QScreen where
  "screenA = \<lparr>name = ''A'', geometry = QRect 0 0 1920 1080,
     availableGeometry = QRect 0 0 1920 1080\<rparr>"

definition screenB :: QScreen where
  "screenB = \<lparr>name = ''B'', geometry = QRect 1920 0 1280 1024,
     availableGeometry = QRect 1920 0 1280 984\<rparr>"

definition screenC :: QScreen where
  "screenC = \<lparr>name = ''C'', geometry = QRect 3200 0 320 240,
     availableGeometry = QRect 3200 0 320 240\<rparr>"

definition desk :: MainWindow where
  "desk = \<lparr>primaryScreen = Some screenA, screens = [screenA, screenB, screenC],
     crc32 = byteSum,
     thirdColumnByDefault = False,
     windowDefaultWidth = 800, windowDefaultHeight = 600,
     windowBigDefaultWidth = 1024, windowBigDefaultHeight = 768,
     windowMinWidth = 380, windowMinHeight = 480, cScale = 100,
     nativeWindowFrame = False,
     windowGeometry = QRect 100 100 800 600, frameGeometry = QRect 100 100 800 600,
     windowState = WindowNoState, isVisible = True, positionInited = True,
     bodyGlobalRect = QRect 2000 100 800 600, rightColumn = None\<rparr>"

text \<open>
  A second desktop: the first screen and a screen to its lower right, with the window
  between them.
\<close>

definition screenR :: QScreen where
  "screenR = \<lparr>name = ''R'', geometry = QRect 2200 800 1920 1080,
     availableGeometry = QRect 2200 800 1920 1080\<rparr>"

definition deskR :: MainWindow where
  "deskR = desk\<lparr>screens := [screenA, screenR], bodyGlobalRect := QRect 1359 1039 800 600\<rparr>"

section \<open>Properties\<close>

subsection \<open>The example desktop, evaluated\<close>

lemmas desk_defs = desk_def screenA_def screenB_def screenC_def byteSum_def

lemma findScreen_desk:
  "moncrc position = 65 \<Longrightarrow> findScreen desk position = Some screenA"
  "moncrc position = 66 \<Longrightarrow> findScreen desk position = Some screenB"
  "moncrc position = 67 \<Longrightarrow> findScreen desk position = Some screenC"
  "moncrc position = 1 \<Longrightarrow> findScreen desk position = None"
  by (simp_all add: findScreen_def screenNameChecksum_def desk_defs)

lemma usableArea_desk:
  "usableArea desk screenA = QRect 0 0 1920 1080"
  "usableArea desk screenB = QRect 0 0 1280 984"
  "usableArea desk screenC = QRect 0 0 320 240"
  by (simp_all add: usableArea_def spaceForInner_def marginsRemoved_def frameMargins_def
      desk_defs)

lemma geometry_desk:
  "geometry screenA = QRect 0 0 1920 1080"
  "geometry screenB = QRect 1920 0 1280 1024"
  "geometry screenC = QRect 3200 0 320 240"
  by (simp_all add: desk_defs)

lemma windowMin_desk: "windowMinWidth desk = 380" "windowMinHeight desk = 480"
  by (simp_all add: desk_defs)

lemma initialGeometry_desk: "initialGeometry desk = QRect 560 240 800 600"
  by (simp add: initialGeometry_def cpp_div_def desk_defs)

subsection \<open>The fallback rectangle\<close>

text \<open>
  The fallback rectangle has the default size; when the available area of the primary
  screen is at least as large, it is centered there: the margins on opposite sides differ
  by at most one pixel.
\<close>

lemma cpp_div_2_nonneg: "0 \<le> d \<Longrightarrow> cpp_div d 2 = d div 2"
  by (cases "d = 0") (simp_all add: cpp_div_def)

lemma initialGeometry_centered:
  assumes "primaryScreen win = Some scr"
    and "availableGeometry scr = QRect ax ay aw ah"
    and "initialGeometry win = QRect ix iy iw ih"
    and "iw \<le> aw" and "ih \<le> ah"
  shows "0 \<le> ix - ax" and "ix - ax \<le> (ax + aw) - (ix + iw)"
    and "(ax + aw) - (ix + iw) \<le> ix - ax + 1"
    and "0 \<le> iy - ay" and "iy - ay \<le> (ay + ah) - (iy + ih)"
    and "(ay + ah) - (iy + ih) \<le> iy - ay + 1"
proof -
  have "ix = ax + (aw - iw) div 2" and "iy = ay + (ah - ih) div 2"
    using assms by (auto simp: initialGeometry_def Let_def cpp_div_2_nonneg split: if_splits)
  then show "0 \<le> ix - ax" and "ix - ax \<le> (ax + aw) - (ix + iw)"
    and "(ax + aw) - (ix + iw) \<le> ix - ax + 1"
    and "0 \<le> iy - ay" and "iy - ay \<le> (ay + ah) - (iy + ih)"
    and "(ay + ah) - (iy + ih) \<le> iy - ay + 1"
    using assms(4,5) by simp_all
qed

subsection \<open>Fitting one axis\<close>

text \<open>
  What \<open>fitPosition\<close> does to a saved rectangle, stated on the saved values themselves.
  The tests of lines 547 and 548 run first, so the branch of lines 557 to 560 is never
  taken; its effect on a rectangle wider than the usable area is that of line 547.
\<close>

lemma fitPosition_inside:
  assumes "rect_x usable \<le> x position" and "rect_y usable \<le> y position"
    and "x position + w position \<le> rect_x usable + rect_width usable"
    and "y position + h position \<le> rect_y usable + rect_height usable"
  shows "fitPosition usable position = position"
proof -
  have "w position \<le> rect_width usable" "h position \<le> rect_height usable"
    using assms by linarith+
  then show ?thesis
    using assms by (simp add: fitPosition_def Let_def)
qed

lemma fitPosition_right:
  assumes "ux + uw < x position + w position"
  shows "x (fitPosition (QRect ux uy uw uh) position)
           = (if ux \<le> x position - (x position + w position - (ux + uw))
              then x position - (x position + w position - (ux + uw)) else ux)"
    and "w (fitPosition (QRect ux uy uw uh) position)
           = (if ux \<le> x position - (x position + w position - (ux + uw))
              then w position else w position - (ux + w position - (ux + uw)))"
  using assms by (auto simp: fitPosition_def Let_def)

lemma fitPosition_bottom:
  assumes "uy + uh < y position + h position"
  shows "y (fitPosition (QRect ux uy uw uh) position)
           = (if uy \<le> y position - (y position + h position - (uy + uh))
              then y position - (y position + h position - (uy + uh)) else uy)"
    and "h (fitPosition (QRect ux uy uw uh) position)
           = (if uy \<le> y position - (y position + h position - (uy + uh))
              then h position else h position - (uy + h position - (uy + uh)))"
  using assms by (auto simp: fitPosition_def Let_def)

lemma fitPosition_no_right:
  assumes "x position + w position \<le> ux + uw" and "ux \<le> x position"
  shows "x (fitPosition (QRect ux uy uw uh) position) = x position"
    and "w (fitPosition (QRect ux uy uw uh) position) = w position"
  using assms by (auto simp: fitPosition_def Let_def)

lemma fitPosition_no_bottom:
  assumes "y position + h position \<le> uy + uh" and "uy \<le> y position"
  shows "y (fitPosition (QRect ux uy uw uh) position) = y position"
    and "h (fitPosition (QRect ux uy uw uh) position) = h position"
  using assms by (auto simp: fitPosition_def Let_def)

text \<open>
  A rectangle inside the usable area, of at least the minimum window size, on a screen
  whose right and bottom edges are not inside the usable area, passes the tests of line
  542 and of lines 579 to 582.
\<close>

lemma inside_passes_tests:
  assumes "x position + w position
             \<le> rect_x (usableArea win scr) + rect_width (usableArea win scr)"
    and "y position + h position
           \<le> rect_y (usableArea win scr) + rect_height (usableArea win scr)"
    and "rect_x (usableArea win scr) \<le> x position"
    and "rect_y (usableArea win scr) \<le> y position"
    and "windowMinWidth win \<le> w position" and "windowMinHeight win \<le> h position"
    and "rect_x (usableArea win scr) + rect_width (usableArea win scr)
           \<le> rect_width (geometry scr)"
    and "rect_y (usableArea win scr) + rect_height (usableArea win scr)
           \<le> rect_height (geometry scr)"
  shows "windowMinWidth win \<le> rect_width (usableArea win scr)"
    and "windowMinHeight win \<le> rect_height (usableArea win scr)"
    and "\<not> minSizeOverflows win scr
           (position\<lparr>x := x position + rect_x (geometry scr),
                      y := y position + rect_y (geometry scr)\<rparr>)"
  using assms by (simp_all add: minSizeOverflows_def Let_def)

subsection \<open>Sums of a 32 bit int\<close>

lemma int32_small: "- 2147483648 \<le> v \<Longrightarrow> v < 2147483648 \<Longrightarrow> int32 v = v"
  by (simp add: int32_def)


lemma clampPosition_fields:
  "x (clampPosition usable position) = max (x position) (rect_x usable)"
  "y (clampPosition usable position) = max (y position) (rect_y usable)"
  "w (clampPosition usable position) = min (w position) (rect_width usable)"
  "h (clampPosition usable position) = min (h position) (rect_height usable)"
  by (simp_all add: clampPosition_def Let_def)

lemma fitRight_fields:
  "y (fitRight usable position) = y position"
  "h (fitRight usable position) = h position"
  by (simp_all add: fitRight_def Let_def)

lemma fitBottom_fields:
  "x (fitBottom usable position) = x position"
  "w (fitBottom usable position) = w position"
  by (simp_all add: fitBottom_def Let_def)

text \<open>\<open>fitPosition\<close> is the three steps in a row.\<close>

lemma fitPosition_steps:
  "fitPosition usable position = fitBottom usable (fitRight usable (clampPosition usable position))"
  unfolding fitPosition_def fitBottom_def fitRight_def clampPosition_def Let_def
  by (rule refl)

text \<open>While the values are small, each step with wrapped sums is the step with exact sums.\<close>

lemma fitRight32_exact:
  assumes "- 268435456 < x position" "x position < 268435456"
    and "- 268435456 < w position" "w position < 268435456"
    and "- 268435456 < rect_x usable" "rect_x usable < 268435456"
    and "- 268435456 < rect_width usable" "rect_width usable < 268435456"
  shows "fitRight32 usable position = fitRight usable position"
  using assms by (simp add: fitRight32_def fitRight_def Let_def int32_small)

lemma fitBottom32_exact:
  assumes "- 268435456 < y position" "y position < 268435456"
    and "- 268435456 < h position" "h position < 268435456"
    and "- 268435456 < rect_y usable" "rect_y usable < 268435456"
    and "- 268435456 < rect_height usable" "rect_height usable < 268435456"
  shows "fitBottom32 usable position = fitBottom usable position"
  using assms by (simp add: fitBottom32_def fitBottom_def Let_def int32_small)

lemma fitRight_x_bounds:
  assumes "- 268435456 < x position" "x position < 268435456"
    and "- 268435456 < w position" "w position < 268435456"
    and "- 268435456 < rect_x usable" "rect_x usable < 268435456"
    and "- 268435456 < rect_width usable" "rect_width usable < 268435456"
  shows "- 805306368 < x (fitRight usable position)" "x (fitRight usable position) < 805306368"
  using assms by (simp_all add: fitRight_def Let_def)

lemma fitBottom_y_bounds:
  assumes "- 268435456 < y position" "y position < 268435456"
    and "- 268435456 < h position" "h position < 268435456"
    and "- 268435456 < rect_y usable" "rect_y usable < 268435456"
    and "- 268435456 < rect_height usable" "rect_height usable < 268435456"
  shows "- 805306368 < y (fitBottom usable position)" "y (fitBottom usable position) < 805306368"
  using assms by (simp_all add: fitBottom_def Let_def)

lemma fitPosition32_exact:
  assumes "list_all small [x position, y position, w position, h position,
      rect_x usable, rect_y usable, rect_width usable, rect_height usable]"
  shows "fitPosition32 usable position = fitPosition usable position"
    and "- 805306368 < x (fitPosition usable position)"
    and "x (fitPosition usable position) < 805306368"
    and "- 805306368 < y (fitPosition usable position)"
    and "y (fitPosition usable position) < 805306368"
proof -
  let ?p = "clampPosition usable position"
  let ?q = "fitRight usable ?p"
  from assms have b: "- 268435456 < x position" "x position < 268435456"
    "- 268435456 < y position" "y position < 268435456"
    "- 268435456 < w position" "w position < 268435456"
    "- 268435456 < h position" "h position < 268435456"
    "- 268435456 < rect_x usable" "rect_x usable < 268435456"
    "- 268435456 < rect_y usable" "rect_y usable < 268435456"
    "- 268435456 < rect_width usable" "rect_width usable < 268435456"
    "- 268435456 < rect_height usable" "rect_height usable < 268435456"
    by (simp_all add: small_def abs_less_iff)
  have p: "- 268435456 < x ?p" "x ?p < 268435456" "- 268435456 < w ?p" "w ?p < 268435456"
    "- 268435456 < y ?p" "y ?p < 268435456" "- 268435456 < h ?p" "h ?p < 268435456"
    using b by (simp_all add: clampPosition_fields)
  have right: "fitRight32 usable ?p = ?q"
    using p(1-4) b(9,10,13,14) by (rule fitRight32_exact)
  have q: "- 268435456 < y ?q" "y ?q < 268435456" "- 268435456 < h ?q" "h ?q < 268435456"
    using p(5-8) by (simp_all add: fitRight_fields)
  have bottom: "fitBottom32 usable ?q = fitBottom usable ?q"
    using q b(11,12,15,16) by (rule fitBottom32_exact)
  show "fitPosition32 usable position = fitPosition usable position"
    by (simp add: fitPosition32_def fitPosition_steps right bottom)
  show "- 805306368 < x (fitPosition usable position)"
    and "x (fitPosition usable position) < 805306368"
    using fitRight_x_bounds [OF p(1-4) b(9,10,13,14)]
    by (simp_all add: fitPosition_steps fitBottom_fields)
  show "- 805306368 < y (fitPosition usable position)"
    and "y (fitPosition usable position) < 805306368"
    using fitBottom_y_bounds [OF q b(11,12,15,16)]
    by (simp_all add: fitPosition_steps)
qed

lemma globalPosition32_exact:
  assumes "list_all small [x position, y position, w position, h position,
      rect_x (usableArea win scr), rect_y (usableArea win scr),
      rect_width (usableArea win scr), rect_height (usableArea win scr),
      rect_x (geometry scr), rect_y (geometry scr)]"
  shows "globalPosition32 win scr position = globalPosition win scr position"
    and "- 1073741824 < x (globalPosition win scr position)"
    and "x (globalPosition win scr position) < 1073741824"
    and "- 1073741824 < y (globalPosition win scr position)"
    and "y (globalPosition win scr position) < 1073741824"
proof -
  from assms have s: "list_all small [x position, y position, w position, h position,
      rect_x (usableArea win scr), rect_y (usableArea win scr),
      rect_width (usableArea win scr), rect_height (usableArea win scr)]"
    and g: "- 268435456 < rect_x (geometry scr)" "rect_x (geometry scr) < 268435456"
      "- 268435456 < rect_y (geometry scr)" "rect_y (geometry scr) < 268435456"
    by (simp_all add: small_def abs_less_iff)
  note fit = fitPosition32_exact [OF s]
  show "globalPosition32 win scr position = globalPosition win scr position"
    using fit(2-5) g
    by (simp add: globalPosition32_def globalPosition_def fit(1) Let_def int32_small)
  show "- 1073741824 < x (globalPosition win scr position)"
    and "x (globalPosition win scr position) < 1073741824"
    and "- 1073741824 < y (globalPosition win scr position)"
    and "y (globalPosition win scr position) < 1073741824"
    using fit(2-5) g by (simp_all add: globalPosition_def Let_def)
qed

lemma minSizeOverflows32_exact:
  assumes "- 1073741824 < x moved" "x moved < 1073741824"
    and "- 1073741824 < y moved" "y moved < 1073741824"
    and "list_all small [rect_x (geometry scr), rect_y (geometry scr),
      rect_width (geometry scr), rect_height (geometry scr),
      windowMinWidth win, windowMinHeight win]"
  shows "minSizeOverflows32 win scr moved = minSizeOverflows win scr moved"
proof -
  from assms(5) have "- 268435456 < rect_x (geometry scr)" "rect_x (geometry scr) < 268435456"
    "- 268435456 < rect_y (geometry scr)" "rect_y (geometry scr) < 268435456"
    "- 268435456 < rect_width (geometry scr)" "rect_width (geometry scr) < 268435456"
    "- 268435456 < rect_height (geometry scr)" "rect_height (geometry scr) < 268435456"
    "- 268435456 < windowMinWidth win" "windowMinWidth win < 268435456"
    "- 268435456 < windowMinHeight win" "windowMinHeight win < 268435456"
    by (simp_all add: small_def abs_less_iff)
  with assms(1-4) show ?thesis
    by (simp add: minSizeOverflows32_def minSizeOverflows_def Let_def int32_small)
qed

lemma countInitialGeometry32_exact:
  assumes "\<And>scr. findScreen win position = Some scr \<Longrightarrow>
      list_all small [x position, y position, w position, h position,
        rect_x (usableArea win scr), rect_y (usableArea win scr),
        rect_width (usableArea win scr), rect_height (usableArea win scr),
        rect_x (geometry scr), rect_y (geometry scr),
        rect_width (geometry scr), rect_height (geometry scr),
        windowMinWidth win, windowMinHeight win]"
  shows "countInitialGeometry32 win position = countInitialGeometry win position"
proof (cases "findScreen win position")
  case None
  then show ?thesis
    by (simp add: countInitialGeometry32_def countInitialGeometry_def Let_def)
next
  case (Some scr)
  from assms [OF Some] have s: "list_all small [x position, y position, w position, h position,
      rect_x (usableArea win scr), rect_y (usableArea win scr),
      rect_width (usableArea win scr), rect_height (usableArea win scr),
      rect_x (geometry scr), rect_y (geometry scr)]"
    and g: "list_all small [rect_x (geometry scr), rect_y (geometry scr),
      rect_width (geometry scr), rect_height (geometry scr),
      windowMinWidth win, windowMinHeight win]"
    by simp_all
  note moved = globalPosition32_exact [OF s]
  note test = minSizeOverflows32_exact [OF moved(2-5) g]
  show ?thesis
    by (simp add: countInitialGeometry32_def countInitialGeometry_def Some moved(1) test Let_def)
qed

subsection \<open>The loop over the screens\<close>

lemma chooseScreen_from_Some:
  assumes "chooseScreen c ss (screenDelta c a, Some a) = (d, ch)"
  shows "(ch = Some a \<and> (\<forall>s\<in>set ss. screenDelta c a \<le> screenDelta c s))
       \<or> (\<exists>pre b post. ss = pre @ b # post \<and> ch = Some b
             \<and> screenDelta c b < screenDelta c a
             \<and> (\<forall>s\<in>set pre. screenDelta c b < screenDelta c s)
             \<and> (\<forall>s\<in>set post. screenDelta c b \<le> screenDelta c s))"
  using assms
proof (induction ss arbitrary: a)
  case Nil
  then show ?case by simp
next
  case (Cons s ss)
  show ?case
  proof (cases "screenDelta c s < screenDelta c a")
    case True
    with Cons.prems have "chooseScreen c ss (screenDelta c s, Some s) = (d, ch)"
      by (simp add: Let_def)
    from Cons.IH [OF this] show ?thesis
    proof
      assume "ch = Some s \<and> (\<forall>t\<in>set ss. screenDelta c s \<le> screenDelta c t)"
      then have "s # ss = [] @ s # ss \<and> ch = Some s \<and> screenDelta c s < screenDelta c a
          \<and> (\<forall>t\<in>set []. screenDelta c s < screenDelta c t)
          \<and> (\<forall>t\<in>set ss. screenDelta c s \<le> screenDelta c t)"
        using True by simp
      then show ?thesis by blast
    next
      assume "\<exists>pre b post. ss = pre @ b # post \<and> ch = Some b
             \<and> screenDelta c b < screenDelta c s
             \<and> (\<forall>t\<in>set pre. screenDelta c b < screenDelta c t)
             \<and> (\<forall>t\<in>set post. screenDelta c b \<le> screenDelta c t)"
      then obtain pre b post where *: "ss = pre @ b # post" "ch = Some b"
          "screenDelta c b < screenDelta c s"
          "\<forall>t\<in>set pre. screenDelta c b < screenDelta c t"
          "\<forall>t\<in>set post. screenDelta c b \<le> screenDelta c t"
        by blast
      then have "s # ss = (s # pre) @ b # post \<and> ch = Some b
          \<and> screenDelta c b < screenDelta c a
          \<and> (\<forall>t\<in>set (s # pre). screenDelta c b < screenDelta c t)
          \<and> (\<forall>t\<in>set post. screenDelta c b \<le> screenDelta c t)"
        using True by auto
      then show ?thesis by blast
    qed
  next
    case False
    with Cons.prems have "chooseScreen c ss (screenDelta c a, Some a) = (d, ch)"
      by (simp add: Let_def)
    from Cons.IH [OF this] show ?thesis
    proof
      assume "ch = Some a \<and> (\<forall>t\<in>set ss. screenDelta c a \<le> screenDelta c t)"
      then show ?thesis using False by auto
    next
      assume "\<exists>pre b post. ss = pre @ b # post \<and> ch = Some b
             \<and> screenDelta c b < screenDelta c a
             \<and> (\<forall>t\<in>set pre. screenDelta c b < screenDelta c t)
             \<and> (\<forall>t\<in>set post. screenDelta c b \<le> screenDelta c t)"
      then obtain pre b post where *: "ss = pre @ b # post" "ch = Some b"
          "screenDelta c b < screenDelta c a"
          "\<forall>t\<in>set pre. screenDelta c b < screenDelta c t"
          "\<forall>t\<in>set post. screenDelta c b \<le> screenDelta c t"
        by blast
      then have "s # ss = (s # pre) @ b # post \<and> ch = Some b
          \<and> screenDelta c b < screenDelta c a
          \<and> (\<forall>t\<in>set (s # pre). screenDelta c b < screenDelta c t)
          \<and> (\<forall>t\<in>set post. screenDelta c b \<le> screenDelta c t)"
        using False by auto
      then show ?thesis by blast
    qed
  qed
qed

lemma chooseScreen_first_nearest:
  assumes "ss \<noteq> []"
  shows "\<exists>pre chosen post. ss = pre @ chosen # post
      \<and> snd (chooseScreen c ss (0, None)) = Some chosen
      \<and> (\<forall>s\<in>set pre. screenDelta c chosen < screenDelta c s)
      \<and> (\<forall>s\<in>set post. screenDelta c chosen \<le> screenDelta c s)"
proof -
  from assms obtain a rest where ss: "ss = a # rest"
    by (cases ss) auto
  obtain d ch where run: "chooseScreen c rest (screenDelta c a, Some a) = (d, ch)"
    by (cases "chooseScreen c rest (screenDelta c a, Some a)") auto
  then have res: "snd (chooseScreen c ss (0, None)) = ch"
    by (simp add: ss Let_def)
  from chooseScreen_from_Some [OF run] show ?thesis
  proof
    assume "ch = Some a \<and> (\<forall>s\<in>set rest. screenDelta c a \<le> screenDelta c s)"
    then have "ss = [] @ a # rest \<and> snd (chooseScreen c ss (0, None)) = Some a
      \<and> (\<forall>s\<in>set []. screenDelta c a < screenDelta c s)
      \<and> (\<forall>s\<in>set rest. screenDelta c a \<le> screenDelta c s)"
      using ss res by simp
    then show ?thesis by blast
  next
    assume "\<exists>pre b post. rest = pre @ b # post \<and> ch = Some b
             \<and> screenDelta c b < screenDelta c a
             \<and> (\<forall>s\<in>set pre. screenDelta c b < screenDelta c s)
             \<and> (\<forall>s\<in>set post. screenDelta c b \<le> screenDelta c s)"
    then obtain pre b post where *: "rest = pre @ b # post" "ch = Some b"
        "screenDelta c b < screenDelta c a"
        "\<forall>s\<in>set pre. screenDelta c b < screenDelta c s"
        "\<forall>s\<in>set post. screenDelta c b \<le> screenDelta c s"
      by blast
    then have "ss = (a # pre) @ b # post \<and> snd (chooseScreen c ss (0, None)) = Some b
      \<and> (\<forall>s\<in>set (a # pre). screenDelta c b < screenDelta c s)
      \<and> (\<forall>s\<in>set post. screenDelta c b \<le> screenDelta c s)"
      using ss res by auto
    then show ?thesis by blast
  qed
qed

subsection \<open>The computed record\<close>

lemma realPosition_maximized:
  "realPosition win WindowMaximized saved = saved\<lparr>maximized := 1\<rparr>"
  by (simp add: realPosition_def)

lemma realPosition_independent:
  assumes "state \<noteq> WindowMaximized"
  shows "realPosition win state saved = realPosition win state saved'"
  using assms by (simp add: realPosition_def Let_def split: option.splits)

lemma realPosition_chosen:
  assumes "state \<noteq> WindowMaximized"
    and "currentRect win = QRect rx ry rw rh"
    and "snd (chooseScreen (QPoint (rx + cpp_div rw 2) (ry + cpp_div rh 2)) (screens win)
           (0, None)) = Some chosen"
  shows "realPosition win state saved
           = \<lparr>moncrc = screenNameChecksum win (name chosen), maximized = 0,
               scale = cScale win, x = rx - rect_x (geometry chosen),
               y = ry - rect_y (geometry chosen), w = rw, h = rh\<rparr>"
  using assms by (simp add: realPosition_def Let_def)

lemma savePosition_stored:
  assumes "effectiveState win state \<noteq> WindowMinimized"
    and "isVisible win" and "positionInited win"
    and "windowMinWidth win \<le> w (realPosition win (effectiveState win state) (windowPosition settings))"
    and "windowMinHeight win \<le> h (realPosition win (effectiveState win state) (windowPosition settings))"
  shows "windowPosition (savePosition win state settings)
           = realPosition win (effectiveState win state) (windowPosition settings)"
  using assms by (auto simp: savePosition_def Let_def)

subsection \<open>Rounding to double\<close>

lemma bitlen_pos: "0 < a \<Longrightarrow> bitlen a = bitlen (a div 2) + 1"
  by (simp add: bitlen_def compute_floorlog [of 2 "nat a"] nat_div_distrib)

lemma pow2_pos: "0 < pow2 k"
  by (simp add: pow2_def)


lemma exponent_le:
  assumes "0 < q"
  shows "pow2 (exponent q) \<le> q"
proof (cases "1 \<le> q")
  case True
  then have pos: "0 < \<lfloor>q\<rfloor>"
    by linarith
  from bitlen_bounds [OF pos] have "2 ^ nat (bitlen \<lfloor>q\<rfloor> - 1) \<le> \<lfloor>q\<rfloor>"
    by simp
  then have "(2::real) ^ nat (bitlen \<lfloor>q\<rfloor> - 1) \<le> of_int \<lfloor>q\<rfloor>"
    by (metis of_int_le_iff of_int_numeral of_int_power)
  also have "\<dots> \<le> q"
    by simp
  finally have "2 ^ nat (bitlen \<lfloor>q\<rfloor> - 1) \<le> q" .
  moreover have "1 \<le> bitlen \<lfloor>q\<rfloor>"
    using bitlen_pos [OF pos] bitlen_nonneg [of "\<lfloor>q\<rfloor> div 2"] by simp
  ultimately show ?thesis
    using True by (simp add: exponent_def pow2_def)
next
  case False
  define t where "t = 1 / q"
  define k where "k = bitlen \<lfloor>t\<rfloor> - 1"
  have t: "1 < t" "0 < t" "q = 1 / t"
    using assms False by (simp_all add: t_def)
  then have pos: "0 < \<lfloor>t\<rfloor>"
    by linarith
  have k0: "0 \<le> k"
    using bitlen_pos [OF pos] bitlen_nonneg [of "\<lfloor>t\<rfloor> div 2"] by (simp add: k_def)
  from bitlen_bounds [OF pos] have "\<lfloor>t\<rfloor> < 2 ^ nat (bitlen \<lfloor>t\<rfloor>)"
    by simp
  then have "\<lfloor>t\<rfloor> + 1 \<le> 2 ^ nat (k + 1)"
    by (simp add: k_def)
  then have "(of_int (\<lfloor>t\<rfloor> + 1) :: real) \<le> of_int (2 ^ nat (k + 1))"
    by (simp only: of_int_le_iff)
  then have up: "t < 2 ^ nat (k + 1)"
    by (simp add: less_le_trans [of t "of_int \<lfloor>t\<rfloor> + 1"])
  show ?thesis
  proof (cases "t = pow2 k")
    case True
    then have "exponent q = - k"
      using False by (simp add: exponent_def t_def k_def Let_def)
    moreover have "pow2 (- k) = 1 / t"
      using True k0 by (simp add: pow2_def)
    ultimately show ?thesis
      using t by simp
  next
    case ne: False
    then have "exponent q = - k - 1"
      using False by (simp add: exponent_def t_def k_def Let_def)
    moreover have "pow2 (- k - 1) = 1 / 2 ^ nat (k + 1)"
      using k0 by (simp add: pow2_def)
    moreover have "1 / 2 ^ nat (k + 1) \<le> 1 / t"
      using up t by (simp add: frac_le)
    ultimately show ?thesis
      using t by simp
  qed
qed

lemma pow2_powi: "pow2 k = 2 powi k"
  by (simp add: pow2_def power_int_def inverse_eq_divide power_one_over)

lemma exponent_less:
  assumes "0 < q"
  shows "q < pow2 (exponent q + 1)"
proof (cases "1 \<le> q")
  case True
  then have pos: "0 < \<lfloor>q\<rfloor>"
    by linarith
  have b1: "1 \<le> bitlen \<lfloor>q\<rfloor>"
    using bitlen_pos [OF pos] bitlen_nonneg [of "\<lfloor>q\<rfloor> div 2"] by simp
  from bitlen_bounds [OF pos] have "\<lfloor>q\<rfloor> + 1 \<le> 2 ^ nat (bitlen \<lfloor>q\<rfloor>)"
    by simp
  then have "(of_int (\<lfloor>q\<rfloor> + 1) :: real) \<le> of_int (2 ^ nat (bitlen \<lfloor>q\<rfloor>))"
    by (simp only: of_int_le_iff)
  then have "q < 2 ^ nat (bitlen \<lfloor>q\<rfloor>)"
    by (simp add: less_le_trans [of q "of_int \<lfloor>q\<rfloor> + 1"])
  then show ?thesis
    using True b1 by (simp add: exponent_def pow2_def)
next
  case False
  define t where "t = 1 / q"
  define k where "k = bitlen \<lfloor>t\<rfloor> - 1"
  have t: "1 < t" "0 < t" "q = 1 / t"
    using assms False by (simp_all add: t_def)
  then have pos: "0 < \<lfloor>t\<rfloor>"
    by linarith
  have k0: "0 \<le> k"
    using bitlen_pos [OF pos] bitlen_nonneg [of "\<lfloor>t\<rfloor> div 2"] by (simp add: k_def)
  from bitlen_bounds [OF pos] have "2 ^ nat k \<le> \<lfloor>t\<rfloor>"
    by (simp add: k_def)
  then have "(2::real) ^ nat k \<le> of_int \<lfloor>t\<rfloor>"
    by (metis of_int_le_iff of_int_numeral of_int_power)
  also have "\<dots> \<le> t"
    by simp
  finally have low: "2 ^ nat k \<le> t" .
  show ?thesis
  proof (cases "t = pow2 k")
    case True
    then have e: "exponent q = - k"
      using False by (simp add: exponent_def t_def k_def Let_def)
    have "pow2 (exponent q + 1) = pow2 (- k) * 2"
      unfolding e by (simp add: pow2_powi power_int_diff power_int_minus inverse_eq_divide)
    moreover have "pow2 (- k) = q"
      unfolding t(3) True by (simp add: pow2_powi power_int_minus inverse_eq_divide)
    ultimately show ?thesis
      using assms by simp
  next
    case ne: False
    then have e: "exponent q = - k - 1"
      using False by (simp add: exponent_def t_def k_def Let_def)
    have "2 ^ nat k < t"
      using low ne k0 by (simp add: pow2_def)
    then have "1 / t < 1 / 2 ^ nat k"
      using t by (simp add: frac_less2)
    moreover have "pow2 (exponent q + 1) = 1 / 2 ^ nat k"
      unfolding e using k0 by (simp add: pow2_def)
    ultimately show ?thesis
      unfolding t(3) by simp
  qed
qed




lemma round_half_even_lower:
  assumes "of_int a \<le> m"
  shows "a \<le> round_half_even m"
proof -
  have "a \<le> \<lfloor>m\<rfloor>"
    using assms by (simp add: le_floor_iff)
  then show ?thesis
    by (simp add: round_half_even_def Let_def)
qed

lemma round_half_even_upper:
  assumes "m \<le> of_int b"
  shows "round_half_even m \<le> b"
proof (cases "m = of_int b")
  case True
  then show ?thesis by (simp add: round_half_even_def Let_def)
next
  case False
  with assms have "m < of_int b" by simp
  then have "\<lfloor>m\<rfloor> < b" by (simp add: floor_less_iff)
  then show ?thesis by (simp add: round_half_even_def Let_def)
qed

lemma round_half_even_minus: "round_half_even (- m) = - round_half_even m"
proof (cases "m = of_int \<lfloor>m\<rfloor>")
  case True
  then obtain k where "m = of_int k" ..
  then show ?thesis by (simp add: round_half_even_def Let_def)
next
  case False
  then have "\<lceil>m\<rceil> = \<lfloor>m\<rfloor> + 1"
    by (metis ceiling_altdef of_int_floor_cancel)
  then have fl: "\<lfloor>- m\<rfloor> = - \<lfloor>m\<rfloor> - 1"
    by (simp add: floor_minus)
  show ?thesis
    unfolding round_half_even_def Let_def fl by (auto simp: algebra_simps)
qed

text \<open>The result of the rounding has a significand of 53 bits.\<close>

lemma float64_significand:
  assumes "q \<noteq> 0"
  shows "\<exists>m. float64 q = of_int m * pow2 (exponent \<bar>q\<bar> - 52)
           \<and> 2 ^ 52 \<le> \<bar>m\<bar> \<and> \<bar>m\<bar> \<le> 2 ^ 53"
proof -
  define e where "e = exponent \<bar>q\<bar>"
  define ulp where "ulp = pow2 (e - 52)"
  define m where "m = round_half_even (q / ulp)"
  have ulp: "0 < ulp"
    by (simp add: ulp_def pow2_pos)
  have "pow2 e \<le> \<bar>q\<bar>" and "\<bar>q\<bar> < pow2 (e + 1)"
    using assms by (simp_all add: e_def exponent_le exponent_less)
  moreover have "pow2 e = 2 ^ 52 * ulp" and "pow2 (e + 1) = 2 ^ 53 * ulp"
    by (simp_all add: ulp_def pow2_powi power_int_add power_int_diff)
  ultimately have r: "2 ^ 52 \<le> \<bar>q\<bar> / ulp" "\<bar>q\<bar> / ulp \<le> 2 ^ 53"
    using ulp by (simp_all add: pos_le_divide_eq pos_divide_le_eq)
  have abs_m: "\<bar>m\<bar> = round_half_even (\<bar>q\<bar> / ulp)"
  proof (cases "0 \<le> q")
    case True
    with ulp have "0 \<le> round_half_even (q / ulp)"
      by (intro round_half_even_lower) simp
    with True show ?thesis by (simp add: m_def)
  next
    case False
    then have neg: "\<bar>q\<bar> / ulp = - (q / ulp)" by simp
    from False ulp have "q / ulp \<le> of_int 0"
      by (simp add: divide_nonpos_pos)
    then have "round_half_even (q / ulp) \<le> 0"
      by (rule round_half_even_upper)
    then show ?thesis
      unfolding neg round_half_even_minus by (simp add: m_def)
  qed
  have "2 ^ 52 \<le> \<bar>m\<bar>" and "\<bar>m\<bar> \<le> 2 ^ 53"
    unfolding abs_m
    using round_half_even_lower [of "2 ^ 52" "\<bar>q\<bar> / ulp"]
      round_half_even_upper [of "\<bar>q\<bar> / ulp" "2 ^ 53"] r by simp_all
  moreover have "float64 q = of_int m * pow2 (exponent \<bar>q\<bar> - 52)"
    using assms by (simp add: float64_def m_def ulp_def e_def Let_def)
  ultimately show ?thesis
    by blast
qed









subsection \<open>countInitialGeometry\<close>



text \<open>
  C2, as amended. For a saved position of nonzero size, a screen found whose usable area
  has at least the minimum window size, all values below \<open>2\<^sup>2\<^sup>8\<close> in absolute value, and
  the test of lines 579 to 582 not sending the result to the fallback rectangle: when the
  right edge of the saved rectangle lies beyond the right edge of the usable area, the
  rectangle returned is the saved one moved left by the overflow if its left edge then
  stays inside the usable area; otherwise its left edge is the left edge of the usable
  area and its width is the saved width less the overflow that remains. The same holds
  for the bottom edge, \<open>y\<close> and the height. For a screen and a usable area of
  \<open>(0, 0, 1920, 1080)\<close> and a minimum window size between 0 and \<open>400 \<times> 1030\<close>, the saved
  position \<open>(1800, 50, 400, 300)\<close> gives \<open>(1520, 50, 400, 300)\<close>.

  The claim as stated fails: the saved position \<open>(1800, 50, 200, 500)\<close> passes the
  right edge of that usable area by 80 and is moved to \<open>x = 1720\<close>; with the minimum
  width 380 the test of line 579 finds \<open>1720 + 380 > 1920\<close>, and the fallback rectangle
  is returned.
\<close>

theorem countInitialGeometry32_overflow:
  assumes "findScreen win position = Some scr"
    and "usableArea win scr = QRect ux uy uw uh"
    and "geometry scr = QRect gx gy gw gh"
  shows "(w position \<noteq> 0 \<and> h position \<noteq> 0
          \<and> windowMinWidth win \<le> uw \<and> windowMinHeight win \<le> uh
          \<and> list_all small [x position, y position, w position, h position,
               ux, uy, uw, uh, gx, gy, gw, gh, windowMinWidth win, windowMinHeight win]
          \<and> \<not> minSizeOverflows32 win scr (globalPosition32 win scr position)
        \<longrightarrow>
          (ux + uw < x position + w position \<longrightarrow>
            (let overflow = x position + w position - (ux + uw)
             in if ux \<le> x position - overflow
                then rect_x (countInitialGeometry32 win position) = gx + (x position - overflow)
                     \<and> rect_width (countInitialGeometry32 win position) = w position
                else rect_x (countInitialGeometry32 win position) = gx + ux
                     \<and> rect_width (countInitialGeometry32 win position)
                         = w position - (ux + w position - (ux + uw))))
          \<and> (uy + uh < y position + h position \<longrightarrow>
            (let overflow = y position + h position - (uy + uh)
             in if uy \<le> y position - overflow
                then rect_y (countInitialGeometry32 win position) = gy + (y position - overflow)
                     \<and> rect_height (countInitialGeometry32 win position) = h position
                else rect_y (countInitialGeometry32 win position) = gy + uy
                     \<and> rect_height (countInitialGeometry32 win position)
                         = h position - (uy + h position - (uy + uh)))))
       \<and> (ux = 0 \<and> uy = 0 \<and> uw = 1920 \<and> uh = 1080
            \<and> gx = 0 \<and> gy = 0 \<and> gw = 1920 \<and> gh = 1080
            \<and> 0 \<le> windowMinWidth win \<and> windowMinWidth win \<le> 400
            \<and> 0 \<le> windowMinHeight win \<and> windowMinHeight win \<le> 1030
            \<and> x position = 1800 \<and> y position = 50 \<and> w position = 400 \<and> h position = 300
          \<longrightarrow> countInitialGeometry32 win position = QRect 1520 50 400 300)"
proof -
  let ?fit = "fitPosition (QRect ux uy uw uh) position"
  have general: "countInitialGeometry32 win position
        = QRect (x ?fit + gx) (y ?fit + gy) (w ?fit) (h ?fit)"
    if nz: "w position \<noteq> 0" "h position \<noteq> 0"
      and min: "windowMinWidth win \<le> uw" "windowMinHeight win \<le> uh"
      and sm: "list_all small [x position, y position, w position, h position,
               ux, uy, uw, uh, gx, gy, gw, gh, windowMinWidth win, windowMinHeight win]"
      and ok: "\<not> minSizeOverflows32 win scr (globalPosition32 win scr position)"
  proof -
    have s: "list_all small [x position, y position, w position, h position,
        rect_x (usableArea win scr), rect_y (usableArea win scr),
        rect_width (usableArea win scr), rect_height (usableArea win scr),
        rect_x (geometry scr), rect_y (geometry scr)]"
      using sm by (simp add: assms(2,3))
    note moved = globalPosition32_exact [OF s]
    show ?thesis
      using nz min ok assms
      by (simp add: countInitialGeometry32_def moved(1) globalPosition_def Let_def)
  qed
  have c1: "ux + uw < x position + w position \<longrightarrow>
            (let overflow = x position + w position - (ux + uw)
             in if ux \<le> x position - overflow
                then rect_x (countInitialGeometry32 win position) = gx + (x position - overflow)
                     \<and> rect_width (countInitialGeometry32 win position) = w position
                else rect_x (countInitialGeometry32 win position) = gx + ux
                     \<and> rect_width (countInitialGeometry32 win position)
                         = w position - (ux + w position - (ux + uw)))"
    if "countInitialGeometry32 win position
        = QRect (x ?fit + gx) (y ?fit + gy) (w ?fit) (h ?fit)"
    unfolding that by (simp add: fitPosition_right Let_def)
  have c2: "uy + uh < y position + h position \<longrightarrow>
            (let overflow = y position + h position - (uy + uh)
             in if uy \<le> y position - overflow
                then rect_y (countInitialGeometry32 win position) = gy + (y position - overflow)
                     \<and> rect_height (countInitialGeometry32 win position) = h position
                else rect_y (countInitialGeometry32 win position) = gy + uy
                     \<and> rect_height (countInitialGeometry32 win position)
                         = h position - (uy + h position - (uy + uh)))"
    if "countInitialGeometry32 win position
        = QRect (x ?fit + gx) (y ?fit + gy) (w ?fit) (h ?fit)"
    unfolding that by (simp add: fitPosition_bottom Let_def)
  have c3: "countInitialGeometry32 win position = QRect 1520 50 400 300"
    if v: "ux = 0 \<and> uy = 0 \<and> uw = 1920 \<and> uh = 1080
            \<and> gx = 0 \<and> gy = 0 \<and> gw = 1920 \<and> gh = 1080
            \<and> 0 \<le> windowMinWidth win \<and> windowMinWidth win \<le> 400
            \<and> 0 \<le> windowMinHeight win \<and> windowMinHeight win \<le> 1030
            \<and> x position = 1800 \<and> y position = 50 \<and> w position = 400 \<and> h position = 300"
  proof -
    have "ux + uw < x position + w position"
      using v by simp
    from fitPosition_right [OF this, of uy uh]
    have fx: "x ?fit = 1520" "w ?fit = 400"
      using v by simp_all
    have "y position + h position \<le> uy + uh" and "uy \<le> y position"
      using v by simp_all
    from fitPosition_no_bottom [OF this, of ux uw]
    have fy: "y ?fit = 50" "h ?fit = 300"
      using v by simp_all
    have s: "list_all small [x position, y position, w position, h position,
        rect_x (usableArea win scr), rect_y (usableArea win scr),
        rect_width (usableArea win scr), rect_height (usableArea win scr),
        rect_x (geometry scr), rect_y (geometry scr)]"
      using v by (simp add: assms(2,3) small_def)
    have at: "x (globalPosition32 win scr position) = 1520"
      "y (globalPosition32 win scr position) = 50"
      using v fx fy
      by (simp_all add: globalPosition32_exact(1) [OF s] globalPosition_def assms(2,3) Let_def)
    have ok: "\<not> minSizeOverflows32 win scr (globalPosition32 win scr position)"
      using v by (simp add: minSizeOverflows32_def at assms(3) Let_def int32_small)
    have "countInitialGeometry32 win position
        = QRect (x ?fit + gx) (y ?fit + gy) (w ?fit) (h ?fit)"
      using v ok by (intro general) (simp_all add: small_def)
    then show ?thesis
      unfolding fx fy using v by simp
  qed
  show ?thesis
    using general c1 c2 c3 by blast
qed

theorem countInitialGeometry32_overflow_witness:
  "countInitialGeometry32 desk
     \<lparr>moncrc = 65, maximized = 0, scale = 100, x = 1800, y = 50, w = 400, h = 300\<rparr>
     = QRect 1520 50 400 300
   \<and> countInitialGeometry32 desk
       \<lparr>moncrc = 66, maximized = 0, scale = 100, x = 1000, y = 700, w = 2000, h = 1200\<rparr>
       = QRect 1920 0 1280 984
   \<and> countInitialGeometry32 desk
       \<lparr>moncrc = 66, maximized = 0, scale = 100, x = 1000, y = 700, w = 500, h = 500\<rparr>
       = QRect 2700 484 500 500"
proof -
  let ?p = "\<lparr>moncrc = 65, maximized = 0, scale = 100, x = 1800, y = 50, w = 400, h = 300\<rparr>"
  let ?q = "\<lparr>moncrc = 66, maximized = 0, scale = 100, x = 1000, y = 700, w = 2000, h = 1200\<rparr>"
  let ?r = "\<lparr>moncrc = 66, maximized = 0, scale = 100, x = 1000, y = 700, w = 500, h = 500\<rparr>"
  have pA: "findScreen desk ?p = Some screenA"
    by (simp add: findScreen_desk)
  from countInitialGeometry32_overflow [OF pA usableArea_desk(1) geometry_desk(1)]
  have p: "countInitialGeometry32 desk ?p = QRect 1520 50 400 300"
    by (simp add: windowMin_desk)
  have qB: "findScreen desk ?q = Some screenB"
    by (simp add: findScreen_desk)
  have qfit: "globalPosition32 desk screenB ?q
      = \<lparr>moncrc = 66, maximized = 0, scale = 100, x = 1920, y = 0, w = 1280, h = 984\<rparr>"
    by (simp add: globalPosition32_def fitPosition32_def fitBottom32_def fitRight32_def
        clampPosition_def usableArea_desk geometry_desk int32_def Let_def)
  have qok: "\<not> minSizeOverflows32 desk screenB (globalPosition32 desk screenB ?q)"
    by (simp add: qfit minSizeOverflows32_def geometry_desk windowMin_desk int32_def)
  from countInitialGeometry32_overflow [OF qB usableArea_desk(2) geometry_desk(2)] qok
  have "rect_x (countInitialGeometry32 desk ?q) = 1920
      \<and> rect_width (countInitialGeometry32 desk ?q) = 1280
      \<and> rect_y (countInitialGeometry32 desk ?q) = 0
      \<and> rect_height (countInitialGeometry32 desk ?q) = 984"
    by (simp add: windowMin_desk small_def)
  then have q: "countInitialGeometry32 desk ?q = QRect 1920 0 1280 984"
    by (cases "countInitialGeometry32 desk ?q") simp
  have rB: "findScreen desk ?r = Some screenB"
    by (simp add: findScreen_desk)
  have rfit: "globalPosition32 desk screenB ?r
      = \<lparr>moncrc = 66, maximized = 0, scale = 100, x = 2700, y = 484, w = 500, h = 500\<rparr>"
    by (simp add: globalPosition32_def fitPosition32_def fitBottom32_def fitRight32_def
        clampPosition_def usableArea_desk geometry_desk int32_def Let_def)
  have rok: "\<not> minSizeOverflows32 desk screenB (globalPosition32 desk screenB ?r)"
    by (simp add: rfit minSizeOverflows32_def geometry_desk windowMin_desk int32_def)
  from countInitialGeometry32_overflow [OF rB usableArea_desk(2) geometry_desk(2)] rok
  have "rect_x (countInitialGeometry32 desk ?r) = 2700
      \<and> rect_width (countInitialGeometry32 desk ?r) = 500
      \<and> rect_y (countInitialGeometry32 desk ?r) = 484
      \<and> rect_height (countInitialGeometry32 desk ?r) = 500"
    by (simp add: windowMin_desk small_def)
  then have r: "countInitialGeometry32 desk ?r = QRect 2700 484 500 500"
    by (cases "countInitialGeometry32 desk ?r") simp
  show ?thesis
    using p q r by simp
qed

theorem countInitialGeometry32_overflow_counterexample:
  "findScreen desk
     \<lparr>moncrc = 65, maximized = 0, scale = 100, x = 1800, y = 50, w = 200, h = 500\<rparr>
     = Some screenA
   \<and> usableArea desk screenA = QRect 0 0 1920 1080
   \<and> (0::int) + 1920 < 1800 + 200
   \<and> (0::int) \<le> 1800 - (1800 + 200 - (0 + 1920))
   \<and> countInitialGeometry32 desk
       \<lparr>moncrc = 65, maximized = 0, scale = 100, x = 1800, y = 50, w = 200, h = 500\<rparr>
       = QRect 560 240 800 600
   \<and> countInitialGeometry32 desk
       \<lparr>moncrc = 65, maximized = 0, scale = 100, x = 1800, y = 50, w = 200, h = 500\<rparr>
       \<noteq> QRect (1800 - (1800 + 200 - (0 + 1920))) 50 200 500"
  by (simp add: countInitialGeometry32_def findScreen_desk usableArea_desk geometry_desk
      windowMin_desk initialGeometry_desk minSizeOverflows32_def globalPosition32_def
      fitPosition32_def fitBottom32_def fitRight32_def clampPosition_def int32_def Let_def)

text \<open>
  C4, as amended. A saved position with nonzero size whose rectangle lies inside the
  usable area of the screen found is returned as it is, translated by the origin of the
  screen, provided the usable area has at least the minimum window size and a window of
  the minimum size at the translated corner does not reach past the right or bottom edge
  of the screen (\<open>inside_passes_tests\<close> gives a sufficient condition on the saved size).
  Without the proviso the fallback rectangle is returned: the
  counterexample is a rectangle of \<open>300 \<times> 400\<close> at \<open>(1600, 50)\<close> on a screen of
  \<open>1920 \<times> 1080\<close>, with the minimum size \<open>380 \<times> 480\<close>.
\<close>

theorem countInitialGeometry_inside:
  assumes "findScreen win position = Some scr"
    and "w position \<noteq> 0" and "h position \<noteq> 0"
    and "rect_x (usableArea win scr) \<le> x position"
    and "rect_y (usableArea win scr) \<le> y position"
    and "x position + w position
           \<le> rect_x (usableArea win scr) + rect_width (usableArea win scr)"
    and "y position + h position
           \<le> rect_y (usableArea win scr) + rect_height (usableArea win scr)"
    and "windowMinWidth win \<le> rect_width (usableArea win scr)"
    and "windowMinHeight win \<le> rect_height (usableArea win scr)"
    and "\<not> minSizeOverflows win scr
           (position\<lparr>x := x position + rect_x (geometry scr),
                      y := y position + rect_y (geometry scr)\<rparr>)"
  shows "countInitialGeometry win position
           = QRect (x position + rect_x (geometry scr)) (y position + rect_y (geometry scr))
               (w position) (h position)"
proof -
  have fit: "fitPosition (usableArea win scr) position = position"
    using assms(4-7) by (rule fitPosition_inside)
  show ?thesis
    using assms(1-3,8-10) by (simp add: countInitialGeometry_def globalPosition_def fit Let_def)
qed

theorem countInitialGeometry_inside_witness:
  "countInitialGeometry desk
     \<lparr>moncrc = 66, maximized = 0, scale = 100, x = 200, y = 100, w = 800, h = 600\<rparr>
     = QRect 2120 100 800 600"
proof -
  let ?p = "\<lparr>moncrc = 66, maximized = 0, scale = 100, x = 200, y = 100, w = 800, h = 600\<rparr>"
  have "findScreen desk ?p = Some screenB"
    by (simp add: findScreen_desk)
  from countInitialGeometry_inside [OF this] show ?thesis
    by (simp add: usableArea_desk geometry_desk windowMin_desk minSizeOverflows_def)
qed

theorem countInitialGeometry_inside_counterexample:
  "findScreen desk
     \<lparr>moncrc = 65, maximized = 0, scale = 100, x = 1600, y = 50, w = 300, h = 400\<rparr>
     = Some screenA
   \<and> usableArea desk screenA = QRect 0 0 1920 1080
   \<and> geometry screenA = QRect 0 0 1920 1080
   \<and> countInitialGeometry desk
       \<lparr>moncrc = 65, maximized = 0, scale = 100, x = 1600, y = 50, w = 300, h = 400\<rparr>
       = QRect 560 240 800 600
   \<and> countInitialGeometry desk
       \<lparr>moncrc = 65, maximized = 0, scale = 100, x = 1600, y = 50, w = 300, h = 400\<rparr>
       \<noteq> QRect 1600 50 300 400"
  by (simp add: countInitialGeometry_def findScreen_desk usableArea_desk geometry_desk
      windowMin_desk initialGeometry_desk minSizeOverflows_def globalPosition_def
      fitPosition_def Let_def)




subsection \<open>positionFromSettings\<close>




subsection \<open>savePosition\<close>

lemmas savePosition_eval = savePosition_def effectiveState_def realPosition_def
  currentRect_def screenDelta_def center_def point_minus_def manhattanLength_def cpp_div_def
  screenNameChecksum_def desk_defs Let_def

lemma screenDelta_desk:
  "screenDelta (QPoint 2400 400) screenA = 1580"
  "screenDelta (QPoint 2400 400) screenB = 270"
  "screenDelta (QPoint 2400 400) screenC = 1240"
  by (simp_all add: screenDelta_def center_def point_minus_def manhattanLength_def
      cpp_div_def desk_defs)

text \<open>
  C5. Running \<open>savePosition\<close> a second time on the same window, with the store the first
  run left, changes nothing: no second write. And whenever the computed record agrees
  with the stored one in all of \<open>x\<close>, \<open>y\<close>, \<open>w\<close>, \<open>h\<close>, \<open>scale\<close>, \<open>moncrc\<close> and \<open>maximized\<close>, the
  store is left as it is.
\<close>

theorem savePosition_idempotent:
  "savePosition win state (savePosition win state settings) = savePosition win state settings
   \<and> (x (realPosition win (effectiveState win state) (windowPosition settings))
          = x (windowPosition settings)
        \<and> y (realPosition win (effectiveState win state) (windowPosition settings))
          = y (windowPosition settings)
        \<and> w (realPosition win (effectiveState win state) (windowPosition settings))
          = w (windowPosition settings)
        \<and> h (realPosition win (effectiveState win state) (windowPosition settings))
          = h (windowPosition settings)
        \<and> scale (realPosition win (effectiveState win state) (windowPosition settings))
          = scale (windowPosition settings)
        \<and> moncrc (realPosition win (effectiveState win state) (windowPosition settings))
          = moncrc (windowPosition settings)
        \<and> maximized (realPosition win (effectiveState win state) (windowPosition settings))
          = maximized (windowPosition settings)
      \<longrightarrow> savePosition win state settings = settings)"
proof
  let ?st = "effectiveState win state"
  let ?real = "realPosition win ?st (windowPosition settings)"
  show "savePosition win state (savePosition win state settings)
          = savePosition win state settings"
  proof (cases "savePosition win state settings = settings")
    case True
    then show ?thesis by simp
  next
    case False
    then have new: "savePosition win state settings
        = settings\<lparr>windowPosition := ?real, written := written settings @ [?real]\<rparr>"
      and gate: "\<not> (?st = WindowMinimized \<or> \<not> isVisible win \<or> \<not> positionInited win)"
      and size: "windowMinWidth win \<le> w ?real" "windowMinHeight win \<le> h ?real"
      by (auto simp: savePosition_def Let_def split: if_splits)
    have again: "realPosition win ?st ?real = ?real"
    proof (cases "?st = WindowMaximized")
      case True
      then show ?thesis by (simp add: realPosition_maximized)
    next
      case False
      then show ?thesis by (rule realPosition_independent)
    qed
    show ?thesis
      unfolding new using gate size by (simp add: savePosition_def again Let_def)
  qed
next
  show "x (realPosition win (effectiveState win state) (windowPosition settings))
          = x (windowPosition settings)
        \<and> y (realPosition win (effectiveState win state) (windowPosition settings))
          = y (windowPosition settings)
        \<and> w (realPosition win (effectiveState win state) (windowPosition settings))
          = w (windowPosition settings)
        \<and> h (realPosition win (effectiveState win state) (windowPosition settings))
          = h (windowPosition settings)
        \<and> scale (realPosition win (effectiveState win state) (windowPosition settings))
          = scale (windowPosition settings)
        \<and> moncrc (realPosition win (effectiveState win state) (windowPosition settings))
          = moncrc (windowPosition settings)
        \<and> maximized (realPosition win (effectiveState win state) (windowPosition settings))
          = maximized (windowPosition settings)
      \<longrightarrow> savePosition win state settings = settings"
    by (simp add: savePosition_def Let_def)
qed

theorem savePosition_idempotent_witness:
  "savePosition desk WindowActive
     \<lparr>windowPosition =
        \<lparr>moncrc = 65, maximized = 0, scale = 100, x = 100, y = 100, w = 800, h = 600\<rparr>,
      written = []\<rparr>
     = \<lparr>windowPosition =
          \<lparr>moncrc = 66, maximized = 0, scale = 100, x = 80, y = 100, w = 800, h = 600\<rparr>,
        written =
          [\<lparr>moncrc = 66, maximized = 0, scale = 100, x = 80, y = 100, w = 800, h = 600\<rparr>]\<rparr>
   \<and> savePosition desk WindowActive
       \<lparr>windowPosition =
          \<lparr>moncrc = 66, maximized = 0, scale = 100, x = 80, y = 100, w = 800, h = 600\<rparr>,
        written =
          [\<lparr>moncrc = 66, maximized = 0, scale = 100, x = 80, y = 100, w = 800, h = 600\<rparr>]\<rparr>
       = \<lparr>windowPosition =
            \<lparr>moncrc = 66, maximized = 0, scale = 100, x = 80, y = 100, w = 800, h = 600\<rparr>,
          written =
            [\<lparr>moncrc = 66, maximized = 0, scale = 100, x = 80, y = 100, w = 800, h = 600\<rparr>]\<rparr>"
proof -
  let ?s0 = "\<lparr>windowPosition =
        \<lparr>moncrc = 65, maximized = 0, scale = 100, x = 100, y = 100, w = 800, h = 600\<rparr>,
      written = []\<rparr>"
  have first: "savePosition desk WindowActive ?s0
     = \<lparr>windowPosition =
          \<lparr>moncrc = 66, maximized = 0, scale = 100, x = 80, y = 100, w = 800, h = 600\<rparr>,
        written =
          [\<lparr>moncrc = 66, maximized = 0, scale = 100, x = 80, y = 100, w = 800, h = 600\<rparr>]\<rparr>"
    by (simp add: savePosition_eval)
  from savePosition_idempotent [of desk WindowActive ?s0] show ?thesis
    unfolding first by simp
qed

text \<open>
  C6. \<open>savePosition\<close> leaves the store as it is when the state it looks at is
  minimized, when the window is not visible, and when the position has not been
  initialized. The timer of line 191 calls \<open>savePosition\<close> without an argument; for the
  argument \<^verbatim>\<open>Qt::WindowActive\<close>, which line 680 replaces by the state of the window,
  a minimized window makes the call a no-op.
\<close>

theorem savePosition_gate:
  "(effectiveState win state = WindowMinimized \<or> \<not> isVisible win \<or> \<not> positionInited win
      \<longrightarrow> savePosition win state settings = settings)
   \<and> (windowState win = WindowMinimized
      \<longrightarrow> savePosition win WindowActive settings = settings)"
  by (simp add: savePosition_def effectiveState_def Let_def)

theorem savePosition_gate_witness:
  "effectiveState (desk\<lparr>windowState := WindowMinimized\<rparr>) WindowActive = WindowMinimized
   \<and> savePosition (desk\<lparr>windowState := WindowMinimized\<rparr>) WindowActive
       \<lparr>windowPosition =
          \<lparr>moncrc = 65, maximized = 1, scale = 100, x = 100, y = 100, w = 800, h = 600\<rparr>,
        written = []\<rparr>
       = \<lparr>windowPosition =
            \<lparr>moncrc = 65, maximized = 1, scale = 100, x = 100, y = 100, w = 800, h = 600\<rparr>,
          written = []\<rparr>
   \<and> savePosition (desk\<lparr>isVisible := False\<rparr>) WindowNoState
       \<lparr>windowPosition =
          \<lparr>moncrc = 65, maximized = 1, scale = 100, x = 100, y = 100, w = 800, h = 600\<rparr>,
        written = []\<rparr>
       = \<lparr>windowPosition =
            \<lparr>moncrc = 65, maximized = 1, scale = 100, x = 100, y = 100, w = 800, h = 600\<rparr>,
          written = []\<rparr>
   \<and> savePosition (desk\<lparr>positionInited := False\<rparr>) WindowMaximized
       \<lparr>windowPosition =
          \<lparr>moncrc = 65, maximized = 0, scale = 100, x = 100, y = 100, w = 800, h = 600\<rparr>,
        written = []\<rparr>
       = \<lparr>windowPosition =
            \<lparr>moncrc = 65, maximized = 0, scale = 100, x = 100, y = 100, w = 800, h = 600\<rparr>,
          written = []\<rparr>"
proof -
  let ?s1 = "\<lparr>windowPosition =
          \<lparr>moncrc = 65, maximized = 1, scale = 100, x = 100, y = 100, w = 800, h = 600\<rparr>,
        written = []\<rparr>"
  let ?s0 = "\<lparr>windowPosition =
          \<lparr>moncrc = 65, maximized = 0, scale = 100, x = 100, y = 100, w = 800, h = 600\<rparr>,
        written = []\<rparr>"
  have minimized: "windowState (desk\<lparr>windowState := WindowMinimized\<rparr>) = WindowMinimized"
    by simp
  have hidden: "\<not> isVisible (desk\<lparr>isVisible := False\<rparr>)"
    by simp
  have early: "\<not> positionInited (desk\<lparr>positionInited := False\<rparr>)"
    by simp
  from savePosition_gate [of "desk\<lparr>windowState := WindowMinimized\<rparr>" WindowActive ?s1]
    savePosition_gate [of "desk\<lparr>isVisible := False\<rparr>" WindowNoState ?s1]
    savePosition_gate [of "desk\<lparr>positionInited := False\<rparr>" WindowMaximized ?s0]
    minimized hidden early
  show ?thesis
    by (simp add: effectiveState_def)
qed

text \<open>
  C7. With the window maximized, \<open>x\<close>, \<open>y\<close>, \<open>w\<close>, \<open>h\<close>, \<open>scale\<close> and \<open>moncrc\<close> of the stored
  position keep their values; the \<open>maximized\<close> flag becomes 1 when the window is visible
  and initialized and the stored size is not below the minimum.
\<close>

theorem savePosition_maximized:
  assumes "effectiveState win state = WindowMaximized"
  shows "x (windowPosition (savePosition win state settings)) = x (windowPosition settings)
    \<and> y (windowPosition (savePosition win state settings)) = y (windowPosition settings)
    \<and> w (windowPosition (savePosition win state settings)) = w (windowPosition settings)
    \<and> h (windowPosition (savePosition win state settings)) = h (windowPosition settings)
    \<and> scale (windowPosition (savePosition win state settings))
        = scale (windowPosition settings)
    \<and> moncrc (windowPosition (savePosition win state settings))
        = moncrc (windowPosition settings)
    \<and> (isVisible win \<and> positionInited win
        \<and> windowMinWidth win \<le> w (windowPosition settings)
        \<and> windowMinHeight win \<le> h (windowPosition settings)
       \<longrightarrow> maximized (windowPosition (savePosition win state settings)) = 1)"
  using assms by (simp add: savePosition_def realPosition_maximized Let_def)

theorem savePosition_maximized_witness:
  "effectiveState (desk\<lparr>windowState := WindowMaximized\<rparr>) WindowActive = WindowMaximized
   \<and> windowPosition (savePosition (desk\<lparr>windowState := WindowMaximized\<rparr>) WindowActive
        \<lparr>windowPosition =
           \<lparr>moncrc = 65, maximized = 0, scale = 125, x = 100, y = 120, w = 800, h = 600\<rparr>,
         written = []\<rparr>)
       = \<lparr>moncrc = 65, maximized = 1, scale = 125, x = 100, y = 120, w = 800, h = 600\<rparr>"
proof -
  let ?win = "desk\<lparr>windowState := WindowMaximized\<rparr>"
  let ?s0 = "\<lparr>windowPosition =
           \<lparr>moncrc = 65, maximized = 0, scale = 125, x = 100, y = 120, w = 800, h = 600\<rparr>,
         written = []\<rparr>"
  have st: "effectiveState ?win WindowActive = WindowMaximized"
    by (simp add: effectiveState_def)
  have env: "isVisible ?win \<and> positionInited ?win
      \<and> windowMinWidth ?win \<le> w (windowPosition ?s0)
      \<and> windowMinHeight ?win \<le> h (windowPosition ?s0)"
    by (simp add: desk_defs)
  from savePosition_maximized [OF st, of ?s0] env
  have "windowPosition (savePosition ?win WindowActive ?s0)
      = \<lparr>moncrc = 65, maximized = 1, scale = 125, x = 100, y = 120, w = 800, h = 600\<rparr>"
    by (cases "windowPosition (savePosition ?win WindowActive ?s0)") simp
  with st show ?thesis
    by simp
qed

text \<open>
  C8, as amended. With the window neither minimized nor maximized, visible and
  initialized, of at least the minimum size, and with at least one screen, the stored
  position is the current rectangle as an offset from the origin of the chosen screen,
  with the checksum of that screen's name, the current scale and \<open>maximized = 0\<close>. The
  chosen screen is the first in enumeration order among those whose center has the least
  Manhattan distance to the center \<open>(x + w / 2, y + h / 2)\<close> of the current rectangle.

  The claim as stated, with the Euclidean distance deciding, fails: on the second desktop
  the center of the first screen is the nearer one in Euclidean distance
  (\<open>800\<^sup>2 + 800\<^sup>2 < 1400\<^sup>2\<close>), its Manhattan distance 1600 is above the 1400 of the
  second screen, and the second screen is stored.
\<close>

theorem savePosition_nearest_screen:
  assumes "effectiveState win state \<noteq> WindowMinimized"
    and "effectiveState win state \<noteq> WindowMaximized"
    and "isVisible win" and "positionInited win"
    and "screens win \<noteq> []"
    and "currentRect win = QRect rx ry rw rh"
    and "windowMinWidth win \<le> rw" and "windowMinHeight win \<le> rh"
  shows "\<exists>pre chosen post. screens win = pre @ chosen # post
      \<and> (\<forall>s\<in>set pre. screenDelta (QPoint (rx + cpp_div rw 2) (ry + cpp_div rh 2)) chosen
                        < screenDelta (QPoint (rx + cpp_div rw 2) (ry + cpp_div rh 2)) s)
      \<and> (\<forall>s\<in>set post. screenDelta (QPoint (rx + cpp_div rw 2) (ry + cpp_div rh 2)) chosen
                        \<le> screenDelta (QPoint (rx + cpp_div rw 2) (ry + cpp_div rh 2)) s)
      \<and> windowPosition (savePosition win state settings)
          = \<lparr>moncrc = screenNameChecksum win (name chosen), maximized = 0,
              scale = cScale win, x = rx - rect_x (geometry chosen),
              y = ry - rect_y (geometry chosen), w = rw, h = rh\<rparr>"
proof -
  let ?c = "QPoint (rx + cpp_div rw 2) (ry + cpp_div rh 2)"
  from chooseScreen_first_nearest [OF assms(5), of ?c]
  obtain pre chosen post where split: "screens win = pre @ chosen # post"
    and chosen: "snd (chooseScreen ?c (screens win) (0, None)) = Some chosen"
    and before: "\<forall>s\<in>set pre. screenDelta ?c chosen < screenDelta ?c s"
    and after: "\<forall>s\<in>set post. screenDelta ?c chosen \<le> screenDelta ?c s"
    by blast
  have real: "realPosition win (effectiveState win state) (windowPosition settings)
      = \<lparr>moncrc = screenNameChecksum win (name chosen), maximized = 0,
          scale = cScale win, x = rx - rect_x (geometry chosen),
          y = ry - rect_y (geometry chosen), w = rw, h = rh\<rparr>"
    using assms(2,6) chosen by (rule realPosition_chosen)
  have "windowPosition (savePosition win state settings)
      = realPosition win (effectiveState win state) (windowPosition settings)"
    using assms(1,3,4,7,8) by (intro savePosition_stored) (simp_all add: real)
  with split before after real show ?thesis
    by auto
qed

theorem savePosition_nearest_screen_witness:
  "currentRect desk = QRect 2000 100 800 600
   \<and> screenDelta (QPoint 2400 400) screenA = 1580
   \<and> screenDelta (QPoint 2400 400) screenB = 270
   \<and> screenDelta (QPoint 2400 400) screenC = 1240
   \<and> windowPosition (savePosition desk WindowActive
        \<lparr>windowPosition =
           \<lparr>moncrc = 65, maximized = 1, scale = 125, x = 100, y = 120, w = 900, h = 700\<rparr>,
         written = []\<rparr>)
       = \<lparr>moncrc = 66, maximized = 0, scale = 100, x = 80, y = 100, w = 800, h = 600\<rparr>"
proof -
  let ?s0 = "\<lparr>windowPosition =
           \<lparr>moncrc = 65, maximized = 1, scale = 125, x = 100, y = 120, w = 900, h = 700\<rparr>,
         written = []\<rparr>"
  let ?c = "QPoint 2400 400"
  have rect: "currentRect desk = QRect 2000 100 800 600"
    by (simp add: currentRect_def desk_defs)
  have c: "QPoint (2000 + cpp_div 800 2) (100 + cpp_div 600 2) = ?c"
    by (simp add: cpp_div_def)
  have st: "effectiveState desk WindowActive = WindowNoState"
    by (simp add: effectiveState_def desk_defs)
  have scr: "screens desk = [screenA, screenB, screenC]"
    by (simp add: desk_defs)
  have env: "isVisible desk" "positionInited desk" "screens desk \<noteq> []"
    "windowMinWidth desk \<le> 800" "windowMinHeight desk \<le> 600"
    by (simp_all add: desk_defs)
  from savePosition_nearest_screen [of desk WindowActive 2000 100 800 600 ?s0] st env rect
  obtain pre chosen post where split: "screens desk = pre @ chosen # post"
    and before: "\<forall>s\<in>set pre. screenDelta ?c chosen < screenDelta ?c s"
    and after: "\<forall>s\<in>set post. screenDelta ?c chosen \<le> screenDelta ?c s"
    and stored: "windowPosition (savePosition desk WindowActive ?s0)
          = \<lparr>moncrc = screenNameChecksum desk (name chosen), maximized = 0,
              scale = cScale desk, x = 2000 - rect_x (geometry chosen),
              y = 100 - rect_y (geometry chosen), w = 800, h = 600\<rparr>"
    unfolding c by auto
  have "set (screens desk) = set pre \<union> {chosen} \<union> set post"
    unfolding split by auto
  then have mem: "chosen \<in> {screenA, screenB, screenC}"
    and all: "set pre \<union> set post \<subseteq> {screenA, screenB, screenC}"
    unfolding scr by auto
  have least: "screenDelta ?c chosen \<le> screenDelta ?c screenB"
  proof -
    have "screenB \<in> set pre \<union> {chosen} \<union> set post"
      using \<open>set (screens desk) = set pre \<union> {chosen} \<union> set post\<close> scr by auto
    then show ?thesis
      using before after by force
  qed
  have "chosen = screenB"
    using mem least by (auto simp: screenDelta_desk)
  with stored have "windowPosition (savePosition desk WindowActive ?s0)
       = \<lparr>moncrc = 66, maximized = 0, scale = 100, x = 80, y = 100, w = 800, h = 600\<rparr>"
    by (simp add: screenNameChecksum_def desk_defs)
  with rect show ?thesis
    by (simp add: screenDelta_desk)
qed

theorem savePosition_nearest_screen_counterexample:
  "screens deskR = [screenA, screenR]
   \<and> currentRect deskR = QRect 1359 1039 800 600
   \<and> QPoint (1359 + cpp_div 800 2) (1039 + cpp_div 600 2) = QPoint 1759 1339
   \<and> center (geometry screenA) = QPoint 959 539
   \<and> center (geometry screenR) = QPoint 3159 1339
   \<and> ((959 - 1759)\<^sup>2 + (539 - 1339)\<^sup>2 :: int) < (3159 - 1759)\<^sup>2 + (1339 - 1339)\<^sup>2
   \<and> screenDelta (QPoint 1759 1339) screenA = 1600
   \<and> screenDelta (QPoint 1759 1339) screenR = 1400
   \<and> screenNameChecksum deskR (name screenA) = 65
   \<and> screenNameChecksum deskR (name screenR) = 82
   \<and> windowPosition (savePosition deskR WindowActive
        \<lparr>windowPosition =
           \<lparr>moncrc = 0, maximized = 0, scale = 100, x = 0, y = 0, w = 0, h = 0\<rparr>,
         written = []\<rparr>)
       = \<lparr>moncrc = 82, maximized = 0, scale = 100, x = - 841, y = 239, w = 800, h = 600\<rparr>"
  by (simp add: savePosition_eval deskR_def screenR_def)

text \<open>
  C10. A call of \<open>savePosition\<close> writes at most one record, and a record it writes has at
  least the minimum width and height. When the computed record is smaller, the store is
  left as it is; so it is for a maximized window whose stored size is below the minimum,
  whatever the stored \<open>maximized\<close> flag.
\<close>

theorem savePosition_min_size:
  "(written (savePosition win state settings) = written settings
      \<or> written (savePosition win state settings)
          = written settings @ [windowPosition (savePosition win state settings)]
        \<and> windowMinWidth win \<le> w (windowPosition (savePosition win state settings))
        \<and> windowMinHeight win \<le> h (windowPosition (savePosition win state settings)))
   \<and> (w (realPosition win (effectiveState win state) (windowPosition settings))
          < windowMinWidth win
        \<or> h (realPosition win (effectiveState win state) (windowPosition settings))
          < windowMinHeight win
      \<longrightarrow> savePosition win state settings = settings)
   \<and> (effectiveState win state = WindowMaximized
        \<and> (w (windowPosition settings) < windowMinWidth win
           \<or> h (windowPosition settings) < windowMinHeight win)
      \<longrightarrow> savePosition win state settings = settings)"
  by (auto simp: savePosition_def realPosition_maximized Let_def)

theorem savePosition_min_size_witness:
  "savePosition (desk\<lparr>windowState := WindowMaximized\<rparr>) WindowActive
     \<lparr>windowPosition =
        \<lparr>moncrc = 65, maximized = 0, scale = 100, x = 100, y = 120, w = 300, h = 600\<rparr>,
      written = []\<rparr>
     = \<lparr>windowPosition =
          \<lparr>moncrc = 65, maximized = 0, scale = 100, x = 100, y = 120, w = 300, h = 600\<rparr>,
        written = []\<rparr>
   \<and> h (realPosition (desk\<lparr>bodyGlobalRect := QRect 2000 100 800 200\<rparr>) WindowNoState
         \<lparr>moncrc = 65, maximized = 0, scale = 100, x = 100, y = 120, w = 800, h = 600\<rparr>)
       = 200
   \<and> savePosition (desk\<lparr>bodyGlobalRect := QRect 2000 100 800 200\<rparr>) WindowActive
       \<lparr>windowPosition =
          \<lparr>moncrc = 65, maximized = 0, scale = 100, x = 100, y = 120, w = 800, h = 600\<rparr>,
        written = []\<rparr>
       = \<lparr>windowPosition =
            \<lparr>moncrc = 65, maximized = 0, scale = 100, x = 100, y = 120, w = 800, h = 600\<rparr>,
          written = []\<rparr>"
proof -
  let ?max = "desk\<lparr>windowState := WindowMaximized\<rparr>"
  let ?low = "desk\<lparr>bodyGlobalRect := QRect 2000 100 800 200\<rparr>"
  let ?s0 = "\<lparr>windowPosition =
        \<lparr>moncrc = 65, maximized = 0, scale = 100, x = 100, y = 120, w = 300, h = 600\<rparr>,
      written = []\<rparr>"
  let ?s1 = "\<lparr>windowPosition =
        \<lparr>moncrc = 65, maximized = 0, scale = 100, x = 100, y = 120, w = 800, h = 600\<rparr>,
      written = []\<rparr>"
  have st: "effectiveState ?max WindowActive = WindowMaximized"
    "effectiveState ?low WindowActive = WindowNoState"
    by (simp_all add: effectiveState_def desk_defs)
  have narrow: "w (windowPosition ?s0) < windowMinWidth ?max"
    by (simp add: desk_defs)
  have real: "h (realPosition ?low WindowNoState (windowPosition ?s1)) = 200"
    by (simp add: savePosition_eval)
  have low: "h (realPosition ?low (effectiveState ?low WindowActive) (windowPosition ?s1))
      < windowMinHeight ?low"
    unfolding st(2) real by (simp add: desk_defs)
  from savePosition_min_size [of ?max WindowActive ?s0] st(1) narrow
  have "savePosition ?max WindowActive ?s0 = ?s0"
    by blast
  moreover from savePosition_min_size [of ?low WindowActive ?s1] low
  have "savePosition ?low WindowActive ?s1 = ?s1"
    by blast
  ultimately show ?thesis
    using real by simp
qed

end
